theory Spec2Isabelle
  imports Complex_Main "HOL-Library.Log_Nat"
begin

section \<open>Queue entries, errors and log records\<close>

text \<open>
  Modelled from the spec: the entry classes \<open>QueueEntry\<close>, \<open>ObjectQueueEntry\<close>,
  \<open>DeleteOpQueueEntry\<close>, \<open>BucketQueueEntry\<close> and \<open>BucketMdQueueEntry\<close> (under
  \<open>lib/models\<close>) and the arsenal models \<open>ObjectMD\<close> and \<open>ObjectMDLocation\<close> are
  used by the processors but their source is missing. An object entry (the
  \<open>ObjectOp\<close> of the data model) is a record of the values its getters return, and an
  element of \<open>location[]\<close> is a JavaScript object, that is a finite map from property
  names to values. \<open>getEncodedVersionId()\<close> applies the encoding of arsenal, a
  parameter \<open>encode\<close>, to the version id. A property that is \<open>undefined\<close> is \<open>None\<close>.
\<close>

datatype field_value = Str string | Num int

type_synonym location = "string \<rightharpoonup> field_value"

record object_queue_entry =
  oqe_bucket :: string
  oqe_objectKey :: string
  oqe_objectVersionedKey :: string
  oqe_versionId :: "string option"
  oqe_location :: "location list"
  oqe_ownerDisplayName :: string
  oqe_ownerId :: string
  oqe_contentLength :: int
  oqe_contentMd5 :: string
  oqe_isDeleteMarker :: bool
  oqe_replicationIsNFS :: bool

text \<open>The truth value JavaScript gives to a string or \<open>undefined\<close> in a condition.\<close>

definition truthy :: "string option \<Rightarrow> bool" where
  "truthy v = (case v of None \<Rightarrow> False | Some s \<Rightarrow> s \<noteq> [])"

definition getEncodedVersionId :: "(string option \<Rightarrow> string) \<Rightarrow> object_queue_entry \<Rightarrow> string" where
  "getEncodedVersionId encode entry = encode (oqe_versionId entry)"

text \<open>
  An error object. An arsenal error of type \<open>T\<close> has the property \<open>T\<close> set to
  \<open>true\<close> (\<open>err_flags\<close> lists the properties that are set) and a description; an
  error of the AWS SDK has a string \<open>code\<close>. \<open>err_code\<close> is the property \<open>code\<close> when it
  is a string. The task adds the property \<open>origin\<close>. The stock description of an
  arsenal error is kept in arsenal; it is \<open>StockDescription T\<close> here.
\<close>

datatype description = NoDescription | StockDescription string | Description string

record js_error =
  err_flags :: "string list"
  err_code :: "string option"
  err_description :: description
  err_origin :: "string option"
  err_retryable :: bool
  err_statusCode :: "int option"

definition has_flag :: "js_error \<Rightarrow> string \<Rightarrow> bool" where
  "has_flag err t = (t \<in> set (err_flags err))"

definition arsenal_error :: "string \<Rightarrow> js_error" where
  "arsenal_error t =
     \<lparr> err_flags = [t], err_code = None, err_description = StockDescription t,
       err_origin = None, err_retryable = False, err_statusCode = None \<rparr>"

definition customizeDescription :: "js_error \<Rightarrow> string \<Rightarrow> js_error" where
  "customizeDescription err d = err\<lparr>err_description := Description d\<rparr>"

datatype log_event = LogError string | LogInfo string | LogWarn string | LogDebug string

section \<open>Range planner (\<open>_getRangeSize\<close>, \<open>_getGCPRangeSize\<close>, \<open>_getRanges\<close>)\<close>

text \<open>
  The planner computes with JavaScript numbers that hold integers: a content length, a
  part size that is \<open>16 MiB\<close> times a power of two, and byte offsets. They are modelled
  as \<open>int\<close>. Sums, differences, products by two and comparisons of such values are exact
  below \<open>2^53\<close>, and so is a division by a power of two, which is the only division
  of integers the planner makes (the quotient of two logarithms in \<open>_getGCPRangeSize\<close>
  is treated apart, below). The test \<open>a / b > c\<close> is \<open>js_quot_gt a b c\<close>: for \<open>b = 0\<close>
  the quotient of JavaScript is \<open>Infinity\<close>, \<open>NaN\<close> or \<open>-Infinity\<close>, and it exceeds
  \<open>c\<close> exactly when \<open>a\<close> is positive; otherwise it is the quotient of the reals.
\<close>

definition MPU_GCP_MAX_PARTS :: int where
  "MPU_GCP_MAX_PARTS = 1024"

definition js_quot_gt :: "int \<Rightarrow> int \<Rightarrow> int \<Rightarrow> bool" where
  "js_quot_gt a b c =
     (if b = 0 then 0 < a else real_of_int c < real_of_int a / real_of_int b)"

text \<open>
  The first and the second \<open>while\<close> loop of \<open>_getRangeSize\<close>. A loop of the source
  has no bound of its own, so each one is a partial function whose value \<open>None\<close>
  stands for a loop that never ends (which is what happens for a part size of zero);
  that each loop returns on the values the planner passes is proved below.
\<close>

partial_function (option) getRangeSize_loop1 :: "int \<Rightarrow> int \<Rightarrow> int option" where
  "getRangeSize_loop1 contentLen rangeSize =
     (if js_quot_gt contentLen rangeSize 1000 then
        (if rangeSize \<ge> (1024 * 1024) * 512 then Some rangeSize
         else getRangeSize_loop1 contentLen (rangeSize * 2))
      else Some rangeSize)"

partial_function (option) getRangeSize_loop2 :: "int \<Rightarrow> int \<Rightarrow> int option" where
  "getRangeSize_loop2 contentLen rangeSize =
     (if js_quot_gt contentLen rangeSize 10000 then
        getRangeSize_loop2 contentLen (rangeSize * 2)
      else Some rangeSize)"

declare getRangeSize_loop1.simps [code]
declare getRangeSize_loop2.simps [code]

definition getRangeSize :: "int \<Rightarrow> int option" where
  "getRangeSize contentLen =
     (let rangeSize = (1024 * 1024) * 16 in
      if contentLen \<le> rangeSize then Some contentLen
      else Option.bind (getRangeSize_loop1 contentLen rangeSize)
             (getRangeSize_loop2 contentLen))"

text \<open>
  \<open>_getGCPRangeSize\<close>. The source computes
  \<open>Math.pow(2, Math.ceil(Math.log(contentLen) / Math.log(2)))\<close>. \<open>Math.log\<close> returns a
  double near the logarithm, and which double it is the language standard leaves to
  the engine; the quotient of the two doubles is rounded once more. The planner
  therefore takes the engine's arithmetic as a parameter: \<open>log2q contentLen\<close> is
  the double that the expression \<open>Math.log(contentLen) / Math.log(2)\<close> evaluates to.
  The branch is reached for content lengths above \<open>1024 * 16 MiB\<close> only, where this
  double is finite, hence a real number. \<open>Math.ceil\<close> is the ceiling of that real. For
  an exponent \<open>k\<close> from \<open>0\<close> to \<open>1023\<close>, \<open>Math.pow(2, k)\<close> is the power of two
  and the division by \<open>1024\<close> is exact; for \<open>k < 0\<close> the power is a fraction and
  \<open>Math.ceil(pow / 1024)\<close> is \<open>1\<close>, which is also \<open>\<lceil>2 ^ 0 / 1024\<rceil>\<close>.

  \<open>exact_log2q\<close> is the quotient of an engine whose logarithm has no rounding error.
  On the doubles, \<open>Math.log(2)\<close> is \<open>0.6931471805599453\<close>, and an engine that rounds
  the logarithm to the nearest double gives
  \<open>Math.log(562949953421313) / Math.log(2) = 49\<close> (the length is \<open>2^49 + 1\<close>),
  \<open>Math.log(140737488355328) / Math.log(2) = 47.00000000000001\<close>, the double
  \<open>47 + 2^-47\<close> (the length is \<open>2^47\<close>), and
  \<open>Math.log(1099511627777) / Math.log(2) = 40.000000000001315\<close>, the double
  \<open>5629499534213305 / 2^47\<close> (the length is \<open>2^40 + 1\<close>). These values are used
  in the examples below.
\<close>

definition exact_log2q :: "int \<Rightarrow> real" where
  "exact_log2q contentLen = log 2 (real_of_int contentLen)"

definition getGCPRangeSize :: "(int \<Rightarrow> real) \<Rightarrow> int \<Rightarrow> int option" where
  "getGCPRangeSize log2q contentLen =
     Option.bind (getRangeSize contentLen) (\<lambda>rangeSize.
       if js_quot_gt contentLen rangeSize MPU_GCP_MAX_PARTS then
         (let pow = (2::int) ^ nat \<lceil>log2q contentLen\<rceil>
          in Some \<lceil>real_of_int pow / real_of_int MPU_GCP_MAX_PARTS\<rceil>)
       else Some rangeSize)"

text \<open>
  \<open>_getRanges\<close>. A range is the object \<open>{ start, end }\<close>; the returned array holds
  ranges or \<open>null\<close> (\<open>None\<close>). The state of the loop is \<open>start\<close>, \<open>end\<close> and the
  array \<open>ranges\<close>; the loop returns \<open>start\<close> and \<open>ranges\<close>, which the last \<open>push\<close>
  uses.
\<close>

record byte_range =
  range_start :: int
  range_end :: int

partial_function (option) getRanges_loop ::
  "int \<Rightarrow> int \<Rightarrow> int \<Rightarrow> int \<Rightarrow> byte_range list \<Rightarrow> (int \<times> byte_range list) option" where
  "getRanges_loop contentLen size' start end' ranges =
     (if end' < contentLen - 1 then
        (if start + size' - 1 < contentLen - 1 then
           getRanges_loop contentLen size' (start + size' - 1 + 1) (start + size' - 1)
             (ranges @ [\<lparr>range_start = start, range_end = start + size' - 1\<rparr>])
         else getRanges_loop contentLen size' start (start + size' - 1) ranges)
      else Some (start, ranges))"

declare getRanges_loop.simps [code]

definition getRanges :: "(int \<Rightarrow> real) \<Rightarrow> int \<Rightarrow> bool \<Rightarrow> byte_range option list option" where
  "getRanges log2q contentLen isGCP =
     (if contentLen = 0 then Some [None]
      else Option.bind
        (if isGCP then getGCPRangeSize log2q contentLen else getRangeSize contentLen)
        (\<lambda>size'. Option.bind (getRanges_loop contentLen size' 0 0 [])
           (\<lambda>(start, ranges). Some (map Some
              (ranges @ [\<lparr>range_start = start, range_end = contentLen - 1\<rparr>])))))"

subsection \<open>What it means to tile \<open>[0, L - 1]\<close>\<close>

text \<open>
  \<open>exactly_tiles rs L\<close>: the list is not empty, its first range starts at \<open>0\<close>, its
  last range ends at \<open>L - 1\<close>, each range starts one byte after the end of the one
  before it, no range is empty, and the sizes \<open>end - start + 1\<close> sum to \<open>L\<close>.
  \<open>tiles_from s rs e\<close> is the recursive form used in the proofs.
\<close>

fun tiles_from :: "int \<Rightarrow> byte_range list \<Rightarrow> int \<Rightarrow> bool" where
  "tiles_from s [] e = (s = e + 1)"
| "tiles_from s (r # rs) e =
     (range_start r = s \<and> s \<le> range_end r \<and> tiles_from (range_end r + 1) rs e)"

definition exactly_tiles :: "byte_range list \<Rightarrow> int \<Rightarrow> bool" where
  "exactly_tiles rs L \<longleftrightarrow>
     rs \<noteq> [] \<and> range_start (hd rs) = 0 \<and> range_end (last rs) = L - 1
     \<and> (\<forall>i. Suc i < length rs \<longrightarrow> range_start (rs ! Suc i) = range_end (rs ! i) + 1)
     \<and> (\<forall>r \<in> set rs. range_start r \<le> range_end r)
     \<and> (\<Sum>r\<leftarrow>rs. range_end r - range_start r + 1) = L"

subsection \<open>The part size algorithm as the specification words it\<close>

text \<open>
  Base part size \<open>16 MiB\<close>; while \<open>contentLength / partSize > 1000\<close> and
  \<open>partSize < 512 MiB\<close>, double; while \<open>contentLength / partSize > 10000\<close>, double
  again; for the GCP family, if \<open>contentLength / partSize > 1024\<close>, the part size is
  \<open>ceil(nextPow2(contentLength) / 1024)\<close>. Sizes are natural numbers, the quotient is
  the quotient of the reals, and \<open>nextPow2 n\<close> is the least power of two that is at
  least \<open>n\<close>, found by doubling from \<open>1\<close>.
\<close>

function spec_double_to_1000 :: "nat \<Rightarrow> nat \<Rightarrow> nat" where
  "spec_double_to_1000 contentLength partSize =
     (if real contentLength / real partSize > 1000 \<and> partSize < 512 * (1024 * 1024)
      then spec_double_to_1000 contentLength (2 * partSize) else partSize)"
  by pat_completeness auto
termination
proof (relation "measure (\<lambda>(contentLength, partSize). 512 * (1024 * 1024) - partSize)")
  fix contentLength partSize :: nat
  assume a: "1000 < real contentLength / real partSize \<and> partSize < 512 * (1024 * 1024)"
  then have "0 < partSize" by (auto intro: Nat.gr0I)
  moreover from a have "partSize < 536870912" by simp
  ultimately have "536870912 - 2 * partSize < 536870912 - partSize" by linarith
  then show "((contentLength, 2 * partSize), (contentLength, partSize))
      \<in> measure (\<lambda>(contentLength, partSize). 512 * (1024 * 1024) - partSize)"
    by simp
qed simp

function spec_double_to_10000 :: "nat \<Rightarrow> nat \<Rightarrow> nat" where
  "spec_double_to_10000 contentLength partSize =
     (if real contentLength / real partSize > 10000
      then spec_double_to_10000 contentLength (2 * partSize) else partSize)"
  by pat_completeness auto
termination
proof (relation "measure (\<lambda>(contentLength, partSize). contentLength - partSize)")
  fix contentLength partSize :: nat
  assume a: "10000 < real contentLength / real partSize"
  then have p: "0 < partSize" by (auto intro: Nat.gr0I)
  with a have "10000 * real partSize < real contentLength"
    by (simp add: pos_less_divide_eq)
  then have "real (10000 * partSize) < real contentLength" by simp
  then have "10000 * partSize < contentLength" by (simp only: of_nat_less_iff)
  with p show "((contentLength, 2 * partSize), (contentLength, partSize))
      \<in> measure (\<lambda>(contentLength, partSize). contentLength - partSize)"
    by simp
qed simp

declare spec_double_to_1000.simps [simp del]
declare spec_double_to_10000.simps [simp del]

definition spec_partSize :: "nat \<Rightarrow> nat" where
  "spec_partSize contentLength =
     spec_double_to_10000 contentLength (spec_double_to_1000 contentLength (16 * (1024 * 1024)))"

function spec_nextPow2_from :: "nat \<Rightarrow> nat \<Rightarrow> nat" where
  "spec_nextPow2_from p n = (if n \<le> p \<or> p = 0 then p else spec_nextPow2_from (2 * p) n)"
  by pat_completeness auto
termination
  by (relation "measure (\<lambda>(p, n). n - p)") auto

declare spec_nextPow2_from.simps [simp del]

definition spec_nextPow2 :: "nat \<Rightarrow> nat" where
  "spec_nextPow2 n = spec_nextPow2_from 1 n"

definition spec_gcpPartSize :: "nat \<Rightarrow> nat" where
  "spec_gcpPartSize contentLength =
     (let partSize = spec_partSize contentLength in
      if real contentLength / real partSize > 1024
      then nat \<lceil>real (spec_nextPow2 contentLength) / 1024\<rceil>
      else partSize)"

section \<open>Outcome of a replication task (\<open>_handleReplicationOutcome\<close>)\<close>

text \<open>
  \<open>_publishReplicationStatus(sourceEntry, status, { reason, ... })\<close> is recorded as the
  pair of the status and the reason (\<open>None\<close> when no reason is given). \<open>done()\<close> is
  \<open>Done_no_result\<close> and \<open>done(null, { committable: false })\<close> is
  \<open>Done_not_committable\<close>. \<open>is_error e T\<close> is the test \<open>err.T || err.code === 'T'\<close>.
\<close>

datatype done_call = Done_no_result | Done_not_committable

record outcome =
  published :: "(string \<times> description option) list"
  out_logged :: "log_event list"
  done_with :: done_call

definition handleReplicationOutcome :: "js_error option \<Rightarrow> outcome" where
  "handleReplicationOutcome err =
     (case err of
        None \<Rightarrow>
          \<lparr> published = [(''COMPLETED'', None)],
            out_logged = [LogDebug ''replication succeeded for object, publishing replication status as COMPLETED''],
            done_with = Done_not_committable \<rparr>
      | Some e \<Rightarrow>
          if has_flag e ''BadRole'' \<or>
             (err_origin e = Some ''source'' \<and>
              (has_flag e ''NoSuchEntity'' \<or> err_code e = Some ''NoSuchEntity'' \<or>
               has_flag e ''AccessDenied'' \<or> err_code e = Some ''AccessDenied''))
          then \<lparr> published = [],
                 out_logged = [LogError ''replication failed permanently for object, processing skipped''],
                 done_with = Done_no_result \<rparr>
          else if has_flag e ''ObjNotFound'' \<or> err_code e = Some ''ObjNotFound''
          then \<lparr> published = [],
                 out_logged = [LogInfo ''replication skipped: source object version does not exist''],
                 done_with = Done_no_result \<rparr>
          else if has_flag e ''InvalidObjectState'' \<or> err_code e = Some ''InvalidObjectState''
          then \<lparr> published = [],
                 out_logged = [LogInfo ''replication skipped: invalid object state''],
                 done_with = Done_no_result \<rparr>
          else \<lparr> published = [(''FAILED'', Some (err_description e))],
                 out_logged = [LogDebug ''replication failed permanently for object, publishing replication status as FAILED''],
                 done_with = Done_not_committable \<rparr>)"

definition is_error :: "js_error \<Rightarrow> string \<Rightarrow> bool" where
  "is_error e t \<longleftrightarrow> has_flag e t \<or> err_code e = Some t"

section \<open>Replication task for heterogeneous backends (\<open>MultipleBackendTask\<close>)\<close>

subsection \<open>Callbacks that tag the origin of an error\<close>

text \<open>
  A transfer reads from the source with \<open>getObject\<close> and writes with a
  \<open>multipleBackend...\<close> request. An attempt ends with the first of three events (the
  callback is wrapped by \<open>jsutil.once\<close>): an error of the source request, an error of
  its stream, or the response of the destination request. Each handler of the source
  is modelled by what it passes on to its callback and by the \<open>origin\<close> field it
  writes to the log (the empty list when it does not log).
\<close>

datatype 'd transfer_event =
    SourceReq_error js_error
  | IncomingMsg_error js_error
  | DestReq_response "js_error + 'd"

record 'd handled =
  logged_origin :: "string list"
  passed_on :: "js_error + 'd"

text \<open>\<open>_putMPUPart\<close>: the handlers \<open>sourceReq.on('error')\<close>, \<open>incomingMsg.on('error')\<close> and the callback of \<open>destReq.send\<close>.\<close>

definition putMPUPart_callbacks :: "'d transfer_event \<Rightarrow> 'd handled" where
  "putMPUPart_callbacks ev =
     (case ev of
        SourceReq_error err \<Rightarrow>
          (if err_statusCode err = Some 404
           then \<lparr> logged_origin = [], passed_on = Inl (err\<lparr>err_origin := Some ''source''\<rparr>) \<rparr>
           else \<lparr> logged_origin = [''source''], passed_on = Inl (err\<lparr>err_origin := Some ''source''\<rparr>) \<rparr>)
      | IncomingMsg_error err \<Rightarrow>
          (if err_statusCode err = Some 404
           then \<lparr> logged_origin = [], passed_on = Inl (arsenal_error ''ObjNotFound'') \<rparr>
           else \<lparr> logged_origin = [''source''], passed_on = Inl (err\<lparr>err_origin := Some ''source''\<rparr>) \<rparr>)
      | DestReq_response (Inl err) \<Rightarrow>
          \<lparr> logged_origin = [''target''], passed_on = Inl (err\<lparr>err_origin := Some ''source''\<rparr>) \<rparr>
      | DestReq_response (Inr data) \<Rightarrow>
          \<lparr> logged_origin = [], passed_on = Inr data \<rparr>)"

text \<open>
  The callback of \<open>destReq.send\<close> in \<open>_completeMPU\<close> and in
  \<open>_sendMultipleBackendPutObject\<close>, and the handlers of \<open>_getAndPutPartOnce\<close>. On
  success \<open>_completeMPU\<close> stores \<open>data.versionId\<close> in the entry (which is not
  modelled) and calls \<open>doneOnce()\<close> with no argument: nothing is passed on.
\<close>

definition completeMPU_callback :: "js_error + 'd \<Rightarrow> unit handled" where
  "completeMPU_callback resp =
     (case resp of
        Inl err \<Rightarrow> \<lparr> logged_origin = [''target''], passed_on = Inl (err\<lparr>err_origin := Some ''source''\<rparr>) \<rparr>
      | Inr data \<Rightarrow> \<lparr> logged_origin = [], passed_on = Inr () \<rparr>)"

definition sendMultipleBackendPutObject_callback :: "js_error + 'd \<Rightarrow> 'd handled" where
  "sendMultipleBackendPutObject_callback resp =
     (case resp of
        Inl err \<Rightarrow> \<lparr> logged_origin = [''target''], passed_on = Inl (err\<lparr>err_origin := Some ''source''\<rparr>) \<rparr>
      | Inr data \<Rightarrow> \<lparr> logged_origin = [], passed_on = Inr data \<rparr>)"

definition getAndPutPartOnce_callbacks :: "'d transfer_event \<Rightarrow> 'd handled" where
  "getAndPutPartOnce_callbacks ev =
     (case ev of
        SourceReq_error err \<Rightarrow>
          \<lparr> logged_origin = [''source''], passed_on = Inl (err\<lparr>err_origin := Some ''source''\<rparr>) \<rparr>
      | IncomingMsg_error err \<Rightarrow>
          (if err_statusCode err = Some 404
           then \<lparr> logged_origin = [''source''], passed_on = Inl (arsenal_error ''ObjNotFound'') \<rparr>
           else \<lparr> logged_origin = [''source''], passed_on = Inl (err\<lparr>err_origin := Some ''source''\<rparr>) \<rparr>)
      | DestReq_response resp \<Rightarrow> sendMultipleBackendPutObject_callback resp)"

text \<open>
  Modelled from the spec: the host picker \<open>destHosts\<close> and \<open>_setupDestClients\<close>
  are missing from the source. Picking the next host advances to the next destination
  host in turn, and the destination client is bound again; the state counts both.
\<close>

record dest_hosts =
  host_index :: nat
  clients_bound :: nat

definition pickNextHost :: "nat \<Rightarrow> dest_hosts \<Rightarrow> dest_hosts" where
  "pickNextHost nhosts h = h\<lparr>host_index := (host_index h + 1) mod nhosts\<rparr>"

definition setupDestClients :: "dest_hosts \<Rightarrow> dest_hosts" where
  "setupDestClients h = h\<lparr>clients_bound := clients_bound h + 1\<rparr>"

text \<open>The hook \<open>onRetryFunc\<close> that \<open>_getAndPutPart\<close> gives to the retry runner.\<close>

definition getAndPutPart_onRetryFunc :: "nat \<Rightarrow> js_error \<Rightarrow> dest_hosts \<Rightarrow> dest_hosts" where
  "getAndPutPart_onRetryFunc nhosts err h =
     (if err_origin err = Some ''target'' then setupDestClients (pickNextHost nhosts h) else h)"

subsection \<open>Checking the state of the source object (\<open>_fetchSourceMD\<close>, \<open>_checkObjectState\<close>)\<close>

text \<open>
  JavaScript binds the arguments of a call to the parameters by position and checks
  nothing. \<open>_fetchSourceMD(sourceEntry, log, cb)\<close> is therefore modelled on the list
  of the values it is called with. Its first statement calls
  \<open>sourceEntry.getBucket()\<close>, which throws a \<open>TypeError\<close> unless \<open>sourceEntry\<close> is an
  entry object. The answer of \<open>backbeatSourceProxy.getMetadata\<close> is a parameter: an
  error, a blob that does not parse, or the metadata of the source.
\<close>

datatype js_exception = TypeError string

datatype js_value =
    JUndefined
  | JString string
  | JObjectQueueEntry object_queue_entry
  | JLogger
  | JFunction

definition argument :: "js_value list \<Rightarrow> nat \<Rightarrow> js_value" where
  "argument args i = (if i < length args then args ! i else JUndefined)"

record source_md =
  md_contentMd5 :: string
  md_replicationSiteStatus :: "string option"

datatype md_response = MD_error js_error | MD_unparsable | MD_blob source_md

definition fetchSourceMD :: "js_value list \<Rightarrow> md_response \<Rightarrow> js_exception + (js_error + source_md)" where
  "fetchSourceMD args getMetadata =
     (let sourceEntry = argument args 0; log = argument args 1; cb = argument args 2 in
      case sourceEntry of
        JObjectQueueEntry entry \<Rightarrow>
          (case cb of
             JFunction \<Rightarrow>
               (case getMetadata of
                  MD_error err \<Rightarrow> Inr (Inl err)
                | MD_unparsable \<Rightarrow>
                    Inr (Inl (customizeDescription (arsenal_error ''InternalError'')
                                ''error parsing metadata blob''))
                | MD_blob md \<Rightarrow> Inr (Inr md))
           | _ \<Rightarrow> Inl (TypeError ''cb is not a function''))
      | JUndefined \<Rightarrow> Inl (TypeError ''Cannot read property getBucket of undefined'')
      | _ \<Rightarrow> Inl (TypeError ''sourceEntry.getBucket is not a function''))"

text \<open>
  \<open>_checkObjectState(sourceEntry, log, cb)\<close> calls
  \<open>this._fetchSourceMD(sourceEntry.getBucket(), sourceEntry.getObjectKey(),
  sourceEntry.getEncodedVersionId(), log, cb)\<close>, five arguments of which the first three
  are strings. The result is the exception thrown, or the error (if any) given to
  \<open>cb\<close>.
\<close>

definition checkObjectState ::
  "(string option \<Rightarrow> string) \<Rightarrow> object_queue_entry \<Rightarrow> md_response \<Rightarrow> js_exception + js_error option" where
  "checkObjectState encode sourceEntry getMetadata =
     (case fetchSourceMD [JString (oqe_bucket sourceEntry), JString (oqe_objectKey sourceEntry),
                          JString (getEncodedVersionId encode sourceEntry), JLogger, JFunction]
             getMetadata of
        Inl exc \<Rightarrow> Inl exc
      | Inr (Inl err) \<Rightarrow>
          (if err_code err = Some ''ObjNotFound'' \<and> \<not> oqe_isDeleteMarker sourceEntry
           then Inr (Some (arsenal_error ''InvalidObjectState''))
           else Inr (Some err))
      | Inr (Inr objMD) \<Rightarrow>
          (if md_contentMd5 objMD \<noteq> oqe_contentMd5 sourceEntry
           then Inr (Some (arsenal_error ''InvalidObjectState''))
           else Inr None))"

subsection \<open>A multipart upload (\<open>_getAndPutMultipartUploadOnce\<close> and what it calls)\<close>

text \<open>
  A run of the upload is modelled as a state machine. The environment answers the
  requests that are outstanding, in any order: the input of a run is the list of these
  answers, and the state records the trace of what happened, in order: the requests
  sent, the call of the callback of \<open>_initiateMPU\<close> with an upload id, the end of
  each part (the callback of \<open>_getRangeAndPutMPUPart\<close>) and the call of the final
  callback \<open>doneOnce\<close>. Metrics are not recorded.

  \<open>async.timesLimit(count, limit, iteratee, callback)\<close> of the async library starts
  the iteratee for the first \<open>limit\<close> indices, starts the next index each time an
  iteratee ends without error, calls \<open>callback\<close> with the first error, after which it
  starts nothing, and calls \<open>callback\<close> with the results once every index has ended.
\<close>

definition MPU_CONC_LIMIT :: nat where
  "MPU_CONC_LIMIT = 10"

text \<open>
  The data of the answer to \<open>multipleBackendPutMPUPart\<close>, and the element \<open>res\<close>
  that \<open>_completeRangedMPU\<close> builds from it for the body of the complete request.
\<close>

record part_data =
  pd_partNumber :: nat
  pd_ETag :: string
  pd_numberSubParts :: "nat option"

record part_result =
  res_PartNumber :: "nat list"
  res_ETag :: "string list"
  res_NumberSubParts :: "nat option list option"

text \<open>
  The requests to the gateway with the parameters that matter here (part number,
  range, upload id, content length, list of parts), and the events of a trace.
\<close>

datatype request =
    MultipleBackendInitiateMPU
  | GetObject nat byte_range
  | MultipleBackendPutMPUPart nat string int
  | MultipleBackendAbortMPU string
  | MultipleBackendCompleteMPU string "part_result list"

datatype event =
    Request request
  | InitiateMPU_returned string
  | Part_succeeded nat
  | Part_failed nat js_error
  | Done "js_error option"

text \<open>
  Modelled from the spec: the retry runner \<open>this.retry\<close> is missing from the source.
  It retries an attempt when \<open>shouldRetryFunc\<close> (here \<open>err.retryable\<close>) holds and its
  budget of retries and time is not used up; the flag of \<open>Part_response\<close> says whether
  budget is left when the answer arrives. An answer to a part carries the event that
  ends the attempt.
\<close>

datatype response =
    InitiateMPU_response "js_error + string"
  | Part_response nat "part_data transfer_event" bool
  | CompleteMPU_response "js_error + string"

text \<open>
  The state of a run: whether it waits for the upload to be initiated, uploads parts,
  waits for the completion, has called \<open>doneOnce\<close>, has thrown an exception, or
  hangs in the planner; the upload id; the planned ranges; the number of parts started;
  the part numbers with an attempt outstanding; the results by index; the number of
  state checks made; and the trace.
\<close>

datatype run_status = Initiating | Uploading | Completing | Finished | Crashed js_exception | Diverged

record mpu_state =
  st_status :: run_status
  st_uploadId :: "string option"
  st_ranges :: "byte_range option list"
  st_started :: nat
  st_in_flight :: "nat list"
  st_results :: "part_result option list"
  st_checks :: nat
  st_trace :: "event list"

text \<open>
  What a run reads from the task and its surroundings: the type of the replication
  endpoint (\<open>_getReplicationEndpointType()\<close>), the value of
  \<open>uuid().replace(/-/g, '')\<close>, the encoding of version ids, the answers of the
  metadata service of the source, in order, and the arithmetic of the engine that the
  planner uses (the double that \<open>Math.log(contentLen) / Math.log(2)\<close> evaluates to).
\<close>

record task =
  endpointType :: string
  uuid :: string
  encodeVersionId :: "string option \<Rightarrow> string"
  getMetadata :: "nat \<Rightarrow> md_response"
  log2_quotient :: "int \<Rightarrow> real"

text \<open>
  One attempt at a part, \<open>_getRangeAndPutMPUPartOnce\<close>: a ranged \<open>getObject\<close> unless
  the part is empty, then \<open>multipleBackendPutMPUPart\<close>.
\<close>

definition getRangeAndPutMPUPartOnce :: "byte_range option \<Rightarrow> nat \<Rightarrow> string \<Rightarrow> event list" where
  "getRangeAndPutMPUPartOnce range' partNumber uploadId =
     (case range' of
        Some r \<Rightarrow>
          (let size' = range_end r - range_start r + 1 in
           (if size' \<noteq> 0 then [Request (GetObject partNumber r)] else [])
           @ [Request (MultipleBackendPutMPUPart partNumber uploadId size')])
      | None \<Rightarrow> [Request (MultipleBackendPutMPUPart partNumber uploadId 0)])"

text \<open>
  \<open>_checkMPUState\<close>: on \<open>InvalidObjectState\<close> the upload is aborted and the callback
  gets \<open>errors.InvalidObjectState\<close> whatever the abort answers (the wait for that
  answer is not modelled); the \<open>k\<close>-th check reads the \<open>k\<close>-th answer of the metadata
  service.
\<close>

definition checkMPUState ::
  "task \<Rightarrow> object_queue_entry \<Rightarrow> string \<Rightarrow> nat \<Rightarrow> js_exception + (event list \<times> js_error option)" where
  "checkMPUState t sourceEntry uploadId k =
     (case checkObjectState (encodeVersionId t) sourceEntry (getMetadata t k) of
        Inl exc \<Rightarrow> Inl exc
      | Inr None \<Rightarrow> Inr ([], None)
      | Inr (Some err) \<Rightarrow>
          (if \<not> has_flag err ''InvalidObjectState'' then Inr ([], Some err)
           else Inr ([Request (MultipleBackendAbortMPU uploadId)],
                     Some (arsenal_error ''InvalidObjectState''))))"

text \<open>
  Starting the iteratee of the next index, \<open>_completeRangedMPU\<close> (which plans the
  ranges and starts the first parts), and \<open>_sendInitiateMPU\<close> with \<open>_initiateMPU\<close>:
  for the endpoint type \<open>azure\<close> the upload id is made locally and no request is sent.
\<close>

definition launch :: "string \<Rightarrow> mpu_state \<Rightarrow> mpu_state" where
  "launch uploadId s =
     (let n = st_started s in
      if n < length (st_ranges s) then
        s\<lparr> st_started := n + 1, st_in_flight := st_in_flight s @ [n + 1],
           st_trace := st_trace s @ getRangeAndPutMPUPartOnce (st_ranges s ! n) (n + 1) uploadId \<rparr>
      else s)"

primrec launch_times :: "nat \<Rightarrow> string \<Rightarrow> mpu_state \<Rightarrow> mpu_state" where
  "launch_times 0 uploadId s = s"
| "launch_times (Suc k) uploadId s = launch_times k uploadId (launch uploadId s)"

definition completeRangedMPU :: "task \<Rightarrow> object_queue_entry \<Rightarrow> string \<Rightarrow> mpu_state \<Rightarrow> mpu_state" where
  "completeRangedMPU t sourceEntry uploadId s =
     (let isGCP = (endpointType t = ''gcp'') in
      case getRanges (log2_quotient t) (oqe_contentLength sourceEntry) isGCP of
        None \<Rightarrow> s\<lparr> st_status := Diverged \<rparr>
      | Some ranges \<Rightarrow>
          launch_times (min MPU_CONC_LIMIT (length ranges)) uploadId
            (s\<lparr> st_status := Uploading, st_ranges := ranges,
                st_results := replicate (length ranges) None \<rparr>))"

definition initiateMPU_returned :: "task \<Rightarrow> object_queue_entry \<Rightarrow> string \<Rightarrow> mpu_state \<Rightarrow> mpu_state" where
  "initiateMPU_returned t sourceEntry uploadId s =
     completeRangedMPU t sourceEntry uploadId
       (s\<lparr> st_uploadId := Some uploadId, st_trace := st_trace s @ [InitiateMPU_returned uploadId] \<rparr>)"

definition sendInitiateMPU :: "task \<Rightarrow> object_queue_entry \<Rightarrow> mpu_state \<Rightarrow> mpu_state" where
  "sendInitiateMPU t sourceEntry s =
     (if endpointType t = ''azure'' then initiateMPU_returned t sourceEntry (uuid t) s
      else s\<lparr> st_status := Initiating, st_trace := st_trace s @ [Request MultipleBackendInitiateMPU] \<rparr>)"

definition getAndPutMultipartUploadOnce :: "task \<Rightarrow> object_queue_entry \<Rightarrow> mpu_state" where
  "getAndPutMultipartUploadOnce t sourceEntry =
     (let s = \<lparr> st_status = Initiating, st_uploadId = None, st_ranges = [], st_started = 0,
                st_in_flight = [], st_results = [], st_checks = 0, st_trace = [] \<rparr> in
      if oqe_replicationIsNFS sourceEntry then
        (case checkObjectState (encodeVersionId t) sourceEntry (getMetadata t 0) of
           Inl exc \<Rightarrow> s\<lparr> st_status := Crashed exc \<rparr>
         | Inr (Some err) \<Rightarrow> s\<lparr> st_status := Finished, st_checks := 1, st_trace := [Done (Some err)] \<rparr>
         | Inr None \<Rightarrow> sendInitiateMPU t sourceEntry (s\<lparr> st_checks := 1 \<rparr>))
      else sendInitiateMPU t sourceEntry s)"

text \<open>
  \<open>next_called\<close> is the callback \<open>next\<close> that \<open>async.timesLimit\<close> gives to the
  iteratee, together with the final callback of \<open>_completeRangedMPU\<close>;
  \<open>part_returned\<close> is the callback that \<open>_completeRangedMPU\<close> gives to
  \<open>_getRangeAndPutMPUPart\<close>. The upload id is a variable of the closure in the
  source and a field of the state here: the branches for a state without upload id, and
  the test of \<open>launch\<close> that an index is left, only make the functions total and are
  never taken in a run (the invariant below keeps the upload id while parts are
  uploaded).
\<close>

definition next_called :: "nat \<Rightarrow> js_error option \<Rightarrow> part_result option \<Rightarrow> mpu_state \<Rightarrow> mpu_state" where
  "next_called n err result s =
     (if st_status s \<noteq> Uploading then s
      else case err of
        Some er \<Rightarrow>
          s\<lparr> st_status := Finished,
             st_trace := st_trace s @ [Done (Some (er\<lparr>err_origin := Some ''source''\<rparr>))] \<rparr>
      | None \<Rightarrow>
          (let s1 = s\<lparr> st_results := (st_results s)[n - 1 := result] \<rparr> in
           if st_started s1 < length (st_ranges s1) then
             (case st_uploadId s1 of Some uploadId \<Rightarrow> launch uploadId s1 | None \<Rightarrow> s1)
           else if st_in_flight s1 = [] then
             (case st_uploadId s1 of
                Some uploadId \<Rightarrow>
                  s1\<lparr> st_status := Completing,
                      st_trace := st_trace s1 @
                        [Request (MultipleBackendCompleteMPU uploadId (List.map_filter id (st_results s1)))] \<rparr>
              | None \<Rightarrow> s1)
           else s1))"

definition part_returned ::
  "task \<Rightarrow> object_queue_entry \<Rightarrow> nat \<Rightarrow> js_error + part_data \<Rightarrow> mpu_state \<Rightarrow> mpu_state" where
  "part_returned t sourceEntry n r s =
     (case st_uploadId s of
        None \<Rightarrow> s
      | Some uploadId \<Rightarrow>
         (case r of
            Inl err \<Rightarrow>
              (let s1 = s\<lparr> st_in_flight := removeAll n (st_in_flight s),
                           st_trace := st_trace s @ [Part_failed n err] \<rparr> in
               if oqe_replicationIsNFS sourceEntry then
                 (case checkMPUState t sourceEntry uploadId (st_checks s1) of
                    Inl exc \<Rightarrow> s1\<lparr> st_status := Crashed exc \<rparr>
                  | Inr (evs, Some err') \<Rightarrow>
                      next_called n (Some err') None
                        (s1\<lparr> st_checks := st_checks s1 + 1, st_trace := st_trace s1 @ evs \<rparr>)
                  | Inr (evs, None) \<Rightarrow>
                      next_called n (Some err) None
                        (s1\<lparr> st_checks := st_checks s1 + 1, st_trace := st_trace s1 @ evs \<rparr>))
               else next_called n (Some err) None s1)
          | Inr data \<Rightarrow>
              (let result = \<lparr> res_PartNumber = [pd_partNumber data], res_ETag = [pd_ETag data],
                           res_NumberSubParts =
                             (if endpointType t = ''azure'' then Some [pd_numberSubParts data] else None) \<rparr>;
                   s1 = s\<lparr> st_in_flight := removeAll n (st_in_flight s),
                           st_trace := st_trace s @ [Part_succeeded n] \<rparr> in
               if oqe_replicationIsNFS sourceEntry then
                 (case checkMPUState t sourceEntry uploadId (st_checks s1) of
                    Inl exc \<Rightarrow> s1\<lparr> st_status := Crashed exc \<rparr>
                  | Inr (evs, err') \<Rightarrow>
                      next_called n err' (Some result)
                        (s1\<lparr> st_checks := st_checks s1 + 1, st_trace := st_trace s1 @ evs \<rparr>))
               else next_called n None (Some result) s1)))"

definition finish :: "js_error option \<Rightarrow> mpu_state \<Rightarrow> mpu_state" where
  "finish err s = s\<lparr> st_status := Finished, st_trace := st_trace s @ [Done err] \<rparr>"

text \<open>One answer of the environment, and a whole run.\<close>

definition step :: "task \<Rightarrow> object_queue_entry \<Rightarrow> mpu_state \<Rightarrow> response \<Rightarrow> mpu_state" where
  "step t sourceEntry s resp =
     (case st_status s of
        Crashed exc \<Rightarrow> s
      | Diverged \<Rightarrow> s
      | _ \<Rightarrow>
        (case resp of
           InitiateMPU_response r \<Rightarrow>
             (if st_status s \<noteq> Initiating then s
              else case r of
                Inl err \<Rightarrow> finish (Some (err\<lparr>err_origin := Some ''source''\<rparr>)) s
              | Inr uploadId \<Rightarrow> initiateMPU_returned t sourceEntry uploadId s)
         | Part_response n ev again \<Rightarrow>
             (if n \<notin> set (st_in_flight s) then s
              else case passed_on (putMPUPart_callbacks ev) of
                Inl err \<Rightarrow>
                  (if err_retryable err \<and> again then
                     (case st_uploadId s of
                        Some uploadId \<Rightarrow>
                          s\<lparr> st_trace := st_trace s @
                               getRangeAndPutMPUPartOnce (st_ranges s ! (n - 1)) n uploadId \<rparr>
                      | None \<Rightarrow> s)
                   else part_returned t sourceEntry n (Inl err) s)
              | Inr data \<Rightarrow> part_returned t sourceEntry n (Inr data) s)
         | CompleteMPU_response r \<Rightarrow>
             (if st_status s \<noteq> Completing then s
              else case passed_on (completeMPU_callback r) of
                Inl err \<Rightarrow> finish (Some err) s
              | Inr u \<Rightarrow> finish None s)))"

definition run :: "task \<Rightarrow> object_queue_entry \<Rightarrow> response list \<Rightarrow> mpu_state" where
  "run t sourceEntry responses = foldl (step t sourceEntry) (getAndPutMultipartUploadOnce t sourceEntry) responses"

subsection \<open>Replication of the data of an object (\<open>_getAndPutData\<close>)\<close>

text \<open>
  \<open>getReducedLocations\<close> belongs to the entry class and is a parameter. So is the
  behaviour of \<open>_getAndPutPart\<close> for one part (\<open>None\<close> for the call with \<open>null\<close>):
  the gateway requests it sends and the error it gives to its callback, or the
  exception it throws. \<open>async.mapLimit\<close> belongs to the library \<open>async\<close>; it runs
  the iteratee on up to \<open>MPU_CONC_LIMIT\<close> parts at once, and it is a parameter too:
  from the list, the limit and the iteratee it gives the requests that are sent and
  what the final callback receives. \<open>Array.some\<close> is \<open>list_ex\<close>.
\<close>

record 'io data_run =
  dr_io :: "'io list"
  dr_queued :: "int list"
  dr_logged :: "log_event list"
  dr_result :: "js_exception + js_error option"

definition errMessage_noETag :: string where
  "errMessage_noETag = ''cannot replicate object without dataStoreETag property''"

definition getAndPutData ::
  "(object_queue_entry \<Rightarrow> location list)
    \<Rightarrow> (location list \<Rightarrow> nat \<Rightarrow> (location \<Rightarrow> 'io list \<times> (js_exception + js_error option))
          \<Rightarrow> 'io list \<times> (js_exception + js_error option))
    \<Rightarrow> (location option \<Rightarrow> 'io list \<times> (js_exception + js_error option))
    \<Rightarrow> object_queue_entry \<Rightarrow> 'io data_run" where
  "getAndPutData getReducedLocations mapLimit getAndPutPart sourceEntry =
     (if list_ex (\<lambda>part. part ''dataStoreETag'' = None) (oqe_location sourceEntry) then
        \<lparr> dr_io = [], dr_queued = [], dr_logged = [LogError errMessage_noETag],
          dr_result = Inr (Some (customizeDescription (arsenal_error ''InternalError'') errMessage_noETag)) \<rparr>
      else
        (let locations = getReducedLocations sourceEntry in
         if length locations = 0 then
           (case getAndPutPart None of
              (io, r) \<Rightarrow> \<lparr> dr_io = io, dr_queued = [], dr_logged = [], dr_result = r \<rparr>)
         else
           (case mapLimit locations MPU_CONC_LIMIT (\<lambda>part. getAndPutPart (Some part)) of
              (io, r) \<Rightarrow> \<lparr> dr_io = io, dr_queued = [oqe_contentLength sourceEntry],
                             dr_logged = [], dr_result = r \<rparr>)))"

subsection \<open>Order of events in a trace, and the invariant of a run\<close>

text \<open>
  \<open>precedes a b tr\<close>: every occurrence of \<open>b\<close> in the trace has an \<open>a\<close> before it.
\<close>

definition precedes :: "'a \<Rightarrow> 'a \<Rightarrow> 'a list \<Rightarrow> bool" where
  "precedes a b tr \<longleftrightarrow> (\<forall>pre post. tr = pre @ b # post \<longrightarrow> a \<in> set pre)"

fun is_complete :: "event \<Rightarrow> bool" where
  "is_complete (Request (MultipleBackendCompleteMPU u b)) = True"
| "is_complete ev = False"

fun is_abort :: "event \<Rightarrow> bool" where
  "is_abort (Request (MultipleBackendAbortMPU u)) = True"
| "is_abort ev = False"

definition mpu_core :: "task \<Rightarrow> object_queue_entry \<Rightarrow> mpu_state \<Rightarrow> bool" where
  "mpu_core t e s \<longleftrightarrow>
     (\<forall>u. st_uploadId s = Some u \<longrightarrow> InitiateMPU_returned u \<in> set (st_trace s))
   \<and> (\<forall>n u sz. precedes (InitiateMPU_returned u) (Request (MultipleBackendPutMPUPart n u sz)) (st_trace s))
   \<and> (\<forall>u b n. 1 \<le> n \<and> n \<le> length (st_ranges s) \<longrightarrow>
         precedes (Part_succeeded n) (Request (MultipleBackendCompleteMPU u b)) (st_trace s))
   \<and> (st_status s = Uploading \<longrightarrow>
         st_started s \<le> length (st_ranges s)
         \<and> (\<forall>ev \<in> set (st_trace s). \<not> is_complete ev)
         \<and> getRanges (log2_quotient t) (oqe_contentLength e) (endpointType t = ''gcp'') = Some (st_ranges s)
         \<and> st_uploadId s \<noteq> None)
   \<and> (st_status s = Initiating \<longrightarrow>
         (\<forall>ev \<in> set (st_trace s). \<not> is_complete ev) \<and> st_in_flight s = [] \<and> st_started s = 0)
   \<and> ((\<exists>ev \<in> set (st_trace s). is_complete ev) \<longrightarrow>
         getRanges (log2_quotient t) (oqe_contentLength e) (endpointType t = ''gcp'') = Some (st_ranges s))
   \<and> (\<not> oqe_replicationIsNFS e \<longrightarrow> (\<forall>ev \<in> set (st_trace s). \<not> is_abort ev))"

definition parts_accounted :: "mpu_state \<Rightarrow> bool" where
  "parts_accounted s \<longleftrightarrow>
     (\<forall>n. 1 \<le> n \<and> n \<le> st_started s \<longrightarrow>
        n \<in> set (st_in_flight s) \<or> Part_succeeded n \<in> set (st_trace s))"

definition mpu_inv :: "task \<Rightarrow> object_queue_entry \<Rightarrow> mpu_state \<Rightarrow> bool" where
  "mpu_inv t e s \<longleftrightarrow> mpu_core t e s \<and> (st_status s = Uploading \<longrightarrow> parts_accounted s)"

fun is_put :: "event \<Rightarrow> bool" where
  "is_put (Request (MultipleBackendPutMPUPart n u sz)) = True"
| "is_put ev = False"

subsection \<open>An entry, a task and an error used as examples\<close>

definition ex_task :: task where
  "ex_task = \<lparr> endpointType = ''aws_s3'', uuid = ''0123'',
      encodeVersionId = (\<lambda>v. case v of None \<Rightarrow> [] | Some s \<Rightarrow> s),
      getMetadata = (\<lambda>k. MD_blob \<lparr> md_contentMd5 = ''changed'', md_replicationSiteStatus = None \<rparr>),
      log2_quotient = (\<lambda>contentLen. 5228517251457905 / 2251799813685248) \<rparr>"

definition ex_entry :: object_queue_entry where
  "ex_entry = \<lparr> oqe_bucket = ''b'', oqe_objectKey = ''k'', oqe_objectVersionedKey = ''k.v1'',
           oqe_versionId = Some ''v1'', oqe_location = [], oqe_ownerDisplayName = ''o'',
           oqe_ownerId = ''id'', oqe_contentLength = 5, oqe_contentMd5 = ''m'',
           oqe_isDeleteMarker = False, oqe_replicationIsNFS = False \<rparr>"

definition ex_err :: js_error where
  "ex_err = \<lparr> err_flags = [], err_code = Some ''ServiceUnavailable'', err_description = NoDescription,
       err_origin = None, err_retryable = False, err_statusCode = Some 503 \<rparr>"

definition ex_part :: part_data where
  "ex_part = \<lparr> pd_partNumber = 1, pd_ETag = ''e'', pd_numberSubParts = None \<rparr>"

section \<open>Metadata-mirror processor (extensions/mongoProcessor/MongoQueueProcessor.js)\<close>

text \<open>
  \<open>QueueEntry.createFromKafkaEntry\<close> parses the record of the log; its result is the
  input of the model: an object with the property \<open>error\<close>, or an instance of one of
  the entry classes, which \<open>processKafkaEntry\<close> tells apart with \<open>instanceof\<close>.
\<close>

datatype source_entry =
    EntryError string
  | DeleteOpQueueEntry string string
  | ObjectQueueEntry object_queue_entry
  | BucketMdQueueEntry string string
  | BucketQueueEntry string string
  | UnknownEntry

text \<open>
  \<open>_manipulateLocation\<close>: \<open>Object.assign({}, location, newValues)\<close> is the map
  \<open>location ++ newValues\<close>. \<open>_manipulateOwner\<close> sets the two owner properties.
\<close>

definition manipulateLocation :: "(string option \<Rightarrow> string) \<Rightarrow> object_queue_entry \<Rightarrow> object_queue_entry" where
  "manipulateLocation encode entry =
     (let locations = oqe_location entry;
          editLocations = map (\<lambda>location.
            (let newValues = [''key'' \<mapsto> Str (oqe_objectKey entry),
                              ''dataStoreName'' \<mapsto> Str ''philz-ring'',
                              ''dataStoreType'' \<mapsto> Str ''aws_s3''];
                 newValues = (if truthy (oqe_versionId entry)
                    then newValues(''dataStoreVersionId'' \<mapsto> Str (getEncodedVersionId encode entry))
                    else newValues)
             in location ++ newValues)) locations
      in entry\<lparr>oqe_location := editLocations\<rparr>)"

definition manipulateOwner :: "object_queue_entry \<Rightarrow> object_queue_entry" where
  "manipulateOwner entry =
     entry\<lparr>oqe_ownerDisplayName := ''felipe'',
           oqe_ownerId := ''117d39428f838cb5ac64ffd998f27e44167047a46e6504057b50ed484ae6c5de''\<rparr>"

text \<open>
  The calls of the client of the document database. The fourth argument of
  \<open>putObject\<close> and the third of \<open>deleteObject\<close> are the version parameters,
  \<open>undefined\<close> being \<open>None\<close>. The client itself belongs to arsenal: its answer (an
  error or none) is the parameter \<open>mongoClient\<close>. \<open>getValue()\<close> of the entry is the
  entry's metadata, the record itself. The result of \<open>processKafkaEntry\<close> is the list
  of calls it made, what it logged, and the argument it gave to \<open>done\<close>.
\<close>

record version_params =
  vp_versioning :: bool
  vp_versionId :: "string option"

datatype db_call =
    PutObject string string object_queue_entry "version_params option"
  | DeleteObject string string "version_params option"

record processed =
  db_calls :: "db_call list"
  logged :: "log_event list"
  done_error :: "js_error option"

definition processKafkaEntry ::
  "(string option \<Rightarrow> string) \<Rightarrow> (db_call \<Rightarrow> js_error option) \<Rightarrow> source_entry \<Rightarrow> processed" where
  "processKafkaEntry encode mongoClient sourceEntry =
     (case sourceEntry of
        EntryError e \<Rightarrow>
          \<lparr>db_calls = [], logged = [LogError ''error processing source entry''],
           done_error = Some (arsenal_error ''InternalError'')\<rparr>
      | DeleteOpQueueEntry bucket key \<Rightarrow>
          (let call = DeleteObject bucket key None in
           case mongoClient call of
             Some err \<Rightarrow> \<lparr>db_calls = [call],
                 logged = [LogError ''error deleting object metadata from mongo''],
                 done_error = Some err\<rparr>
           | None \<Rightarrow> \<lparr>db_calls = [call],
                 logged = [LogInfo ''object metadata deleted from mongo''],
                 done_error = None\<rparr>)
      | ObjectQueueEntry entry \<Rightarrow>
          (let bucket = oqe_bucket entry;
               key = oqe_objectVersionedKey entry;
               objVal = manipulateOwner (manipulateLocation encode entry);
               call = PutObject bucket key objVal None in
           case mongoClient call of
             Some err \<Rightarrow> \<lparr>db_calls = [call],
                 logged = [LogError ''error putting object metadata to mongo''],
                 done_error = Some err\<rparr>
           | None \<Rightarrow> \<lparr>db_calls = [call],
                 logged = [LogInfo ''object metadata put to mongo''],
                 done_error = None\<rparr>)
      | BucketMdQueueEntry bucket val \<Rightarrow>
          \<lparr>db_calls = [], logged = [LogWarn ''skipping unknown source entry''],
           done_error = None\<rparr>
      | BucketQueueEntry bucket val \<Rightarrow>
          \<lparr>db_calls = [], logged = [LogWarn ''skipping unknown source entry''],
           done_error = None\<rparr>
      | UnknownEntry \<Rightarrow>
          \<lparr>db_calls = [], logged = [LogWarn ''skipping unknown source entry''],
           done_error = None\<rparr>)"


text \<open>The properties of a location that \<open>_manipulateLocation\<close> writes.\<close>

definition rewritten_fields :: "string set" where
  "rewritten_fields = {''key'', ''dataStoreName'', ''dataStoreType'', ''dataStoreVersionId''}"

section \<open>Mirror-write records (extensions/utils/RaftLogEntry.js)\<close>

text \<open>
  The three constructors of \<open>RaftLogEntry\<close> return an object literal with the fields
  \<open>type\<close>, \<open>bucket\<close>, \<open>key\<close> and \<open>value\<close>. The field \<open>value\<close> is a string or
  \<open>null\<close> (\<open>None\<close>). \<open>JSON.stringify\<close> and \<open>bucket.serialize()\<close> are not part of
  the file; they are parameters of the model. \<open>usersBucket\<close> is a constant imported
  from arsenal and is a parameter as well. A template literal
  \<open>`${a}-${b}`\<close> on strings is the concatenation \<open>a @ ''-'' @ b\<close>.
\<close>

record raft_entry =
  entry_type :: string
  entry_bucket :: string
  entry_key :: string
  entry_value :: "string option"

record 'md object_md =
  om_bucketName :: string
  om_objectKey :: string
  om_res :: 'md

definition createPutEntry :: "('md \<Rightarrow> string) \<Rightarrow> 'md object_md \<Rightarrow> string \<Rightarrow> raft_entry" where
  "createPutEntry stringify objectMd bucketPrefix =
     \<lparr> entry_type = ''put'',
       entry_bucket = bucketPrefix @ ''-'' @ om_bucketName objectMd,
       entry_key = om_objectKey objectMd,
       entry_value = Some (stringify (om_res objectMd)) \<rparr>"

definition createPutBucketEntry :: "string \<Rightarrow> string \<Rightarrow> string \<Rightarrow> raft_entry" where
  "createPutBucketEntry usersBucket bucket bucketPrefix =
     \<lparr> entry_type = ''put'',
       entry_bucket = usersBucket,
       entry_key = bucketPrefix @ ''-'' @ bucket,
       entry_value = None \<rparr>"

record 'b bucket_info =
  bucket_name :: string
  bucket_data :: 'b

definition createPutBucketMdEntry :: "('b bucket_info \<Rightarrow> string) \<Rightarrow> 'b bucket_info \<Rightarrow> string \<Rightarrow> raft_entry" where
  "createPutBucketMdEntry serialize bucket bucketPrefix =
     \<lparr> entry_type = ''put'',
       entry_bucket = bucketPrefix @ ''-'' @ bucket_name bucket,
       entry_key = bucketPrefix @ ''-'' @ bucket_name bucket,
       entry_value = Some (serialize bucket) \<rparr>"

section \<open>Theorems\<close>

subsection \<open>Range planner\<close>

lemma js_quot_gt_pos: "0 < b \<Longrightarrow> js_quot_gt a b c \<longleftrightarrow> c * b < a"
proof -
  assume b: "0 < b"
  then have "real_of_int c < real_of_int a / real_of_int b
      \<longleftrightarrow> real_of_int c * real_of_int b < real_of_int a"
    by (simp add: pos_less_divide_eq)
  also have "\<dots> \<longleftrightarrow> real_of_int (c * b) < real_of_int a"
    by simp
  also have "\<dots> \<longleftrightarrow> c * b < a"
    by (rule of_int_less_iff)
  finally show ?thesis
    using b by (simp add: js_quot_gt_def)
qed

lemma getRangeSize_loop1_returns:
  "0 < r \<Longrightarrow> \<exists>r'. getRangeSize_loop1 L r = Some r' \<and> r \<le> r'
      \<and> (L \<le> 1000 * r' \<or> 536870912 \<le> r')"
proof (induction "nat (536870912 - r)" arbitrary: r rule: less_induct)
  case less
  show ?case
  proof (cases "js_quot_gt L r 1000 \<and> r < 536870912")
    case True
    then have "nat (536870912 - r * 2) < nat (536870912 - r)" and "0 < r * 2"
      using less.prems by auto
    then obtain r' where "getRangeSize_loop1 L (r * 2) = Some r'" "r * 2 \<le> r'"
        "L \<le> 1000 * r' \<or> 536870912 \<le> r'"
      using less.hyps by blast
    with True less.prems show ?thesis
      by (subst getRangeSize_loop1.simps) auto
  next
    case False
    then have "L \<le> 1000 * r \<or> 536870912 \<le> r"
      using less.prems by (auto simp: js_quot_gt_pos)
    with False show ?thesis
      by (subst getRangeSize_loop1.simps) auto
  qed
qed

lemma getRangeSize_loop1_from_16MiB:
  "\<exists>r'. getRangeSize_loop1 L 16777216 = Some r' \<and> r' \<le> 536870912"
proof -
  have l29: "getRangeSize_loop1 L 536870912 = Some 536870912"
    by (subst getRangeSize_loop1.simps) simp
  have l28: "\<exists>r'. getRangeSize_loop1 L 268435456 = Some r' \<and> r' \<le> 536870912"
    by (subst getRangeSize_loop1.simps) (simp add: l29)
  have l27: "\<exists>r'. getRangeSize_loop1 L 134217728 = Some r' \<and> r' \<le> 536870912"
    by (subst getRangeSize_loop1.simps) (simp add: l28)
  have l26: "\<exists>r'. getRangeSize_loop1 L 67108864 = Some r' \<and> r' \<le> 536870912"
    by (subst getRangeSize_loop1.simps) (simp add: l27)
  have l25: "\<exists>r'. getRangeSize_loop1 L 33554432 = Some r' \<and> r' \<le> 536870912"
    by (subst getRangeSize_loop1.simps) (simp add: l26)
  show ?thesis
    by (subst getRangeSize_loop1.simps) (simp add: l25)
qed

lemma getRangeSize_loop2_returns:
  "0 < r \<Longrightarrow> \<exists>r'. getRangeSize_loop2 L r = Some r' \<and> r \<le> r' \<and> L \<le> 10000 * r'
      \<and> (r' = r \<or> 5000 * r' < L)"
proof (induction "nat (L - r)" arbitrary: r rule: less_induct)
  case less
  show ?case
  proof (cases "js_quot_gt L r 10000")
    case True
    then have big: "10000 * r < L"
      using less.prems by (simp add: js_quot_gt_pos)
    then have "nat (L - r * 2) < nat (L - r)" and "0 < r * 2"
      using less.prems by auto
    then obtain r' where r': "getRangeSize_loop2 L (r * 2) = Some r'" "r * 2 \<le> r'"
        "L \<le> 10000 * r'" "r' = r * 2 \<or> 5000 * r' < L"
      using less.hyps by blast
    from r'(4) big have "5000 * r' < L" by auto
    with r' True less.prems show ?thesis
      by (subst getRangeSize_loop2.simps) auto
  next
    case False
    then have "L \<le> 10000 * r"
      using less.prems by (simp add: js_quot_gt_pos)
    with False show ?thesis
      by (subst getRangeSize_loop2.simps) auto
  qed
qed

text \<open>
  \<open>_getRangeSize\<close> returns for every content length from \<open>1\<close>, with a part size
  that gives at most 10000 parts; it gives at most 1024 parts up to \<open>512 GiB\<close>
  (\<open>549755813888\<close> bytes) and more than 1024 parts above.
\<close>

lemma getRangeSize_returns:
  assumes "1 \<le> L"
  shows "\<exists>s. getRangeSize L = Some s \<and> 1 \<le> s \<and> L \<le> 10000 * s
      \<and> (L \<le> 549755813888 \<longrightarrow> L \<le> 1024 * s) \<and> (549755813888 < L \<longrightarrow> 1024 * s < L)"
proof (cases "L \<le> 16777216")
  case True
  with assms show ?thesis by (simp add: getRangeSize_def)
next
  case False
  obtain r1 where r1: "getRangeSize_loop1 L 16777216 = Some r1" "16777216 \<le> r1"
      "L \<le> 1000 * r1 \<or> 536870912 \<le> r1"
    using getRangeSize_loop1_returns [of 16777216 L] by auto
  have r1_le: "r1 \<le> 536870912"
    using getRangeSize_loop1_from_16MiB [of L] r1(1) by auto
  have "0 < r1" using r1(2) by simp
  then obtain r2 where r2: "getRangeSize_loop2 L r1 = Some r2" "r1 \<le> r2" "L \<le> 10000 * r2"
      "r2 = r1 \<or> 5000 * r2 < L"
    using getRangeSize_loop2_returns [of r1 L] by auto
  have "getRangeSize L = Some r2"
    using r1(1) r2(1) False by (simp add: getRangeSize_def)
  moreover have "1 \<le> r2" using r1(2) r2(2) by linarith
  moreover have "L \<le> 549755813888 \<longrightarrow> L \<le> 1024 * r2"
    using r1(3) r2(2) \<open>0 < r1\<close> by auto
  moreover have "549755813888 < L \<longrightarrow> 1024 * r2 < L"
    using r2(4) r1_le \<open>1 \<le> r2\<close> by auto
  ultimately show ?thesis using r2(3) by blast
qed

lemma two_power_ceillog2_ge: "L \<le> 2 ^ ceillog2 (nat L)"
proof -
  have "int (nat L) \<le> int (2 ^ ceillog2 (nat L))"
    by (simp only: of_nat_le_iff le_two_power_ceillog2)
  then show ?thesis by (cases "0 \<le> L") (simp_all add: order_trans [of L 0])
qed

lemma ceiling_two_power_div_1024:
  "\<lceil>real_of_int (2 ^ k) / 1024\<rceil> = (if 10 \<le> k then 2 ^ (k - 10) else (1::int))"
proof (cases "10 \<le> k")
  case True
  then have "(2::int) ^ k = 2 ^ ((k - 10) + 10)" by simp
  also have "\<dots> = 2 ^ (k - 10) * 2 ^ 10" by (rule power_add)
  finally have "(2::int) ^ k = 2 ^ (k - 10) * 1024" by simp
  then have "real_of_int (2 ^ k) / 1024 = real_of_int (2 ^ (k - 10))"
    by simp
  with True show ?thesis by (simp del: of_int_power)
next
  case False
  then have "k < 10" by simp
  then have "(2::int) ^ k < 2 ^ 10"
    by (rule power_strict_increasing) simp
  then have "(2::int) ^ k \<le> 1024" by simp
  then have "real_of_int (2 ^ k) \<le> real_of_int 1024"
    by (simp only: of_int_le_iff)
  then have "real_of_int (2 ^ k) / 1024 \<le> 1" by simp
  moreover have "0 < real_of_int (2 ^ k) / 1024" by simp
  ultimately have "\<lceil>real_of_int (2 ^ k) / 1024\<rceil> = 1"
    by (intro ceiling_unique) simp_all
  with False show ?thesis by simp
qed

lemma two_power_cap:
  assumes "1024 < L"
  shows "L \<le> 1024 * \<lceil>real_of_int (2 ^ k) / 1024\<rceil> \<longleftrightarrow> L \<le> 2 ^ k"
proof (cases "10 \<le> k")
  case True
  then have "(2::int) ^ k = 2 ^ ((k - 10) + 10)" by simp
  also have "\<dots> = 2 ^ (k - 10) * 2 ^ 10" by (rule power_add)
  finally have eq: "(2::int) ^ k = 1024 * 2 ^ (k - 10)" by simp
  have c: "\<lceil>real_of_int (2 ^ k) / 1024\<rceil> = (2::int) ^ (k - 10)"
    using True by (simp only: ceiling_two_power_div_1024 if_True)
  show ?thesis unfolding c by (simp only: eq)
next
  case False
  then have "k < 10" by simp
  then have "(2::int) ^ k < 2 ^ 10"
    by (rule power_strict_increasing) simp
  moreover have c: "\<lceil>real_of_int (2 ^ k) / 1024\<rceil> = (1::int)"
    using False by (simp only: ceiling_two_power_div_1024 if_False)
  ultimately show ?thesis unfolding c using assms by simp
qed

text \<open>
  \<open>_getGCPRangeSize\<close> returns for every content length from \<open>1\<close> and every engine.
  Up to \<open>512 GiB\<close> it returns the part size of \<open>_getRangeSize\<close>, and no logarithm
  is taken; above, it returns the power of two of the engine divided by \<open>1024\<close>.
\<close>

lemma getGCPRangeSize_returns:
  assumes "1 \<le> L"
  shows "\<exists>s. getGCPRangeSize log2q L = Some s \<and> 1 \<le> s
      \<and> (L \<le> 549755813888 \<longrightarrow> getRangeSize L = Some s \<and> L \<le> 1024 * s)
      \<and> (549755813888 < L \<longrightarrow> s = \<lceil>real_of_int (2 ^ nat \<lceil>log2q L\<rceil>) / 1024\<rceil>)"
proof -
  obtain r where r: "getRangeSize L = Some r" "1 \<le> r"
      "L \<le> 549755813888 \<longrightarrow> L \<le> 1024 * r" "549755813888 < L \<longrightarrow> 1024 * r < L"
    using getRangeSize_returns [OF assms] by blast
  have q: "js_quot_gt L r MPU_GCP_MAX_PARTS \<longleftrightarrow> 1024 * r < L"
    using r(2) by (simp add: js_quot_gt_pos MPU_GCP_MAX_PARTS_def)
  show ?thesis
  proof (cases "L \<le> 549755813888")
    case True
    with r(3) q have "getGCPRangeSize log2q L = Some r"
      using r(1) by (simp add: getGCPRangeSize_def)
    with True r show ?thesis by simp
  next
    case False
    define s where "s = \<lceil>real_of_int (2 ^ nat \<lceil>log2q L\<rceil>) / 1024\<rceil>"
    have "getGCPRangeSize log2q L = Some s"
      using False r(1,4) q by (simp add: getGCPRangeSize_def s_def MPU_GCP_MAX_PARTS_def)
    moreover have "1 \<le> s"
      unfolding s_def by (simp only: ceiling_two_power_div_1024) simp
    ultimately show ?thesis using False by (simp add: s_def)
  qed
qed

lemma tiles_from_hd: "tiles_from s rs e \<Longrightarrow> rs \<noteq> [] \<Longrightarrow> range_start (hd rs) = s"
  by (cases rs) auto

lemma tiles_from_last: "tiles_from s rs e \<Longrightarrow> rs \<noteq> [] \<Longrightarrow> range_end (last rs) = e"
proof (induction rs arbitrary: s)
  case Nil
  then show ?case by simp
next
  case (Cons r rs)
  then show ?case by (cases rs) auto
qed

lemma tiles_from_adjacent:
  "tiles_from s rs e \<Longrightarrow> Suc i < length rs \<Longrightarrow> range_start (rs ! Suc i) = range_end (rs ! i) + 1"
proof (induction rs arbitrary: s i)
  case Nil
  then show ?case by simp
next
  case (Cons r rs)
  show ?case
  proof (cases i)
    case 0
    with Cons.prems have "rs \<noteq> []" and "tiles_from (range_end r + 1) rs e"
      by auto
    then have "range_start (hd rs) = range_end r + 1"
      by (rule_tac tiles_from_hd)
    with 0 \<open>rs \<noteq> []\<close> show ?thesis by (simp add: hd_conv_nth)
  next
    case (Suc j)
    with Cons.prems have "tiles_from (range_end r + 1) rs e" "Suc j < length rs"
      by auto
    then have "range_start (rs ! Suc j) = range_end (rs ! j) + 1"
      by (rule Cons.IH)
    with Suc show ?thesis by simp
  qed
qed

lemma tiles_from_inclusive: "tiles_from s rs e \<Longrightarrow> r \<in> set rs \<Longrightarrow> range_start r \<le> range_end r"
  by (induction rs arbitrary: s) auto

lemma tiles_from_sum: "tiles_from s rs e \<Longrightarrow> (\<Sum>r\<leftarrow>rs. range_end r - range_start r + 1) = e + 1 - s"
  by (induction rs arbitrary: s) auto

lemma tiles_from_exactly:
  assumes "tiles_from 0 rs (L - 1)" and "rs \<noteq> []"
  shows "exactly_tiles rs L"
  unfolding exactly_tiles_def
  using assms tiles_from_hd [OF assms] tiles_from_last [OF assms]
    tiles_from_adjacent [OF assms(1)] tiles_from_inclusive [OF assms(1)]
    tiles_from_sum [OF assms(1)]
  by simp

lemma tiles_from_append:
  "tiles_from s (xs @ ys) e \<longleftrightarrow> (\<exists>m. tiles_from s xs (m - 1) \<and> tiles_from m ys e)"
  by (induction xs arbitrary: s) auto

lemma getRanges_loop_returns:
  assumes "1 \<le> s"
  shows "start \<le> L - 1 \<Longrightarrow> e < L - 1 \<Longrightarrow>
    \<exists>st rs. getRanges_loop L s start e acc = Some (st, acc @ rs)
      \<and> tiles_from start (rs @ [\<lparr>range_start = st, range_end = L - 1\<rparr>]) (L - 1)
      \<and> int (length rs) * s < L - start \<and> L - start \<le> (int (length rs) + 1) * s"
proof (induction "nat (L - start)" arbitrary: start e acc rule: less_induct)
  case less
  let ?e = "start + s - 1"
  show ?case
  proof (cases "?e < L - 1")
    case True
    let ?r = "\<lparr>range_start = start, range_end = ?e\<rparr>"
    have "nat (L - (?e + 1)) < nat (L - start)" "?e + 1 \<le> L - 1"
      using True assms less.prems by auto
    from less.hyps [OF this(1) this(2) True, of "acc @ [?r]"]
    obtain st rs where IH: "getRanges_loop L s (?e + 1) ?e (acc @ [?r]) = Some (st, (acc @ [?r]) @ rs)"
      "tiles_from (?e + 1) (rs @ [\<lparr>range_start = st, range_end = L - 1\<rparr>]) (L - 1)"
      "int (length rs) * s < L - (?e + 1)" "L - (?e + 1) \<le> (int (length rs) + 1) * s"
      by blast
    have "getRanges_loop L s start e acc = Some (st, acc @ (?r # rs))"
      using True less.prems IH(1) by (subst getRanges_loop.simps) simp
    moreover have "tiles_from start ((?r # rs) @ [\<lparr>range_start = st, range_end = L - 1\<rparr>]) (L - 1)"
      using IH(2) assms by simp
    moreover have "int (length (?r # rs)) * s < L - start"
      using IH(3) by (simp add: algebra_simps)
    moreover have "L - start \<le> (int (length (?r # rs)) + 1) * s"
      using IH(4) by (simp add: algebra_simps)
    ultimately show ?thesis by blast
  next
    case False
    have "getRanges_loop L s start ?e acc = Some (start, acc)"
      using False by (subst getRanges_loop.simps) simp
    then have "getRanges_loop L s start e acc = Some (start, acc @ [])"
      using False less.prems by (subst getRanges_loop.simps) simp
    moreover have "tiles_from start ([] @ [\<lparr>range_start = start, range_end = L - 1\<rparr>]) (L - 1)"
      using less.prems by simp
    moreover have "int (length ([]::byte_range list)) * s < L - start"
      using less.prems by simp
    moreover have "L - start \<le> (int (length ([]::byte_range list)) + 1) * s"
      using False by simp
    ultimately show ?thesis by blast
  qed
qed

lemma getRanges_loop_tiles:
  assumes "1 \<le> s" and "1 \<le> L"
  shows "\<exists>st rs. getRanges_loop L s 0 0 [] = Some (st, rs)
      \<and> tiles_from 0 (rs @ [\<lparr>range_start = st, range_end = L - 1\<rparr>]) (L - 1)
      \<and> int (length rs) * s < L \<and> L \<le> (int (length rs) + 1) * s"
proof (cases "L = 1")
  case True
  have "getRanges_loop L s 0 0 [] = Some (0, [])"
    using True by (subst getRanges_loop.simps) simp
  with True assms show ?thesis by simp
next
  case False
  with assms have "(0::int) \<le> L - 1" "(0::int) < L - 1" by auto
  from getRanges_loop_returns [OF assms(1) this, of "[]"] show ?thesis by simp
qed

lemma getRanges_plan:
  assumes "1 \<le> L"
    and "(if isGCP then getGCPRangeSize log2q L else getRangeSize L) = Some s"
    and "1 \<le> s"
  shows "\<exists>rs. getRanges log2q L isGCP = Some (map Some rs) \<and> exactly_tiles rs L
            \<and> 1 \<le> length rs \<and> (int (length rs) - 1) * s < L \<and> L \<le> int (length rs) * s"
proof -
  obtain st rs where loop: "getRanges_loop L s 0 0 [] = Some (st, rs)"
      "tiles_from 0 (rs @ [\<lparr>range_start = st, range_end = L - 1\<rparr>]) (L - 1)"
      "int (length rs) * s < L" "L \<le> (int (length rs) + 1) * s"
    using getRanges_loop_tiles [OF assms(3) assms(1)] by blast
  let ?rs = "rs @ [\<lparr>range_start = st, range_end = L - 1\<rparr>]"
  have "getRanges log2q L isGCP = Some (map Some ?rs)"
    using assms(1,2) loop(1) by (simp add: getRanges_def)
  moreover have "exactly_tiles ?rs L"
    using loop(2) by (rule tiles_from_exactly) simp
  moreover have "(int (length ?rs) - 1) * s < L"
    using loop(3) by simp
  moreover have "L \<le> int (length ?rs) * s"
    using loop(4) by (simp add: add.commute)
  moreover have "1 \<le> length ?rs" by simp
  ultimately show ?thesis by blast
qed

lemma part_count_le:
  assumes "(int k - 1) * s < L" and "L \<le> int k * s" and "1 \<le> s"
  shows "k \<le> n \<longleftrightarrow> L \<le> int n * s"
proof
  assume "L \<le> int n * s"
  with assms(1) have "(int k - 1) * s < int n * s" by linarith
  then have "int k - 1 < int n"
    using assms(3) by (simp add: mult_less_cancel_right)
  then show "k \<le> n" by simp
next
  assume "k \<le> n"
  then have "int k * s \<le> int n * s"
    using assms(3) by (simp add: mult_right_mono)
  with assms(2) show "L \<le> int n * s" by linarith
qed

text \<open>
  The plan of \<open>_getRanges\<close> for every content length from \<open>1\<close>, either family and
  every engine: the ranges tile \<open>[0, L - 1]\<close>; there are at most 10000 of them for the
  generic family; for the GCP family there are at most 1024 of them up to \<open>512 GiB\<close>,
  and above \<open>512 GiB\<close> there are at most 1024 of them exactly when the power of two
  that the engine computes is at least the content length.
\<close>

lemma getRanges_tiles:
  assumes "1 \<le> L"
  shows "\<exists>rs. getRanges log2q L isGCP = Some (map Some rs) \<and> exactly_tiles rs L
      \<and> 1 \<le> length rs
      \<and> (\<not> isGCP \<longrightarrow> length rs \<le> 10000)
      \<and> (isGCP \<and> L \<le> 549755813888 \<longrightarrow> length rs \<le> 1024)
      \<and> (isGCP \<and> 549755813888 < L \<longrightarrow>
            (length rs \<le> 1024 \<longleftrightarrow> L \<le> 2 ^ nat \<lceil>log2q L\<rceil>))"
proof (cases isGCP)
  case True
  obtain s where s: "getGCPRangeSize log2q L = Some s" "1 \<le> s"
      "L \<le> 549755813888 \<longrightarrow> L \<le> 1024 * s"
      "549755813888 < L \<longrightarrow> s = \<lceil>real_of_int (2 ^ nat \<lceil>log2q L\<rceil>) / 1024\<rceil>"
    using getGCPRangeSize_returns [OF assms, of log2q] by blast
  from getRanges_plan [OF assms _ s(2), of isGCP log2q] True s(1)
  obtain rs where rs: "getRanges log2q L isGCP = Some (map Some rs)" "exactly_tiles rs L"
      "1 \<le> length rs" "(int (length rs) - 1) * s < L" "L \<le> int (length rs) * s"
    by auto
  have count: "length rs \<le> 1024 \<longleftrightarrow> L \<le> 1024 * s"
    using part_count_le [OF rs(4) rs(5) s(2), of 1024] by simp
  have "549755813888 < L \<longrightarrow> (length rs \<le> 1024 \<longleftrightarrow> L \<le> 2 ^ nat \<lceil>log2q L\<rceil>)"
  proof
    assume big: "549755813888 < L"
    then have "1024 < L" by simp
    from two_power_cap [OF this, of "nat \<lceil>log2q L\<rceil>"] s(4) big count
    show "length rs \<le> 1024 \<longleftrightarrow> L \<le> 2 ^ nat \<lceil>log2q L\<rceil>" by simp
  qed
  with rs(1,2,3) count s(3) True show ?thesis by blast
next
  case False
  obtain s where s: "getRangeSize L = Some s" "1 \<le> s" "L \<le> 10000 * s"
    using getRangeSize_returns [OF assms] by blast
  from getRanges_plan [OF assms _ s(2), of isGCP log2q] False s(1)
  obtain rs where rs: "getRanges log2q L isGCP = Some (map Some rs)" "exactly_tiles rs L"
      "1 \<le> length rs" "(int (length rs) - 1) * s < L" "L \<le> int (length rs) * s"
    by auto
  have "length rs \<le> 10000"
    using part_count_le [OF rs(4) rs(5) s(2), of 10000] s(3) by simp
  with rs(1,2,3) False show ?thesis by blast
qed

lemma getRanges_zero: "getRanges log2q 0 isGCP = Some [None]"
  by (simp add: getRanges_def)

text \<open>
  With an engine whose logarithm has no rounding error the GCP family gets at most
  1024 ranges for every content length.
\<close>

lemma exact_log2q_ceillog2:
  assumes "1 \<le> L"
  shows "nat \<lceil>exact_log2q L\<rceil> = ceillog2 (nat L)"
proof -
  have "real_of_int L = real (nat L)" using assms by simp
  moreover have "nat L \<noteq> 0" using assms by simp
  ultimately show ?thesis by (simp add: exact_log2q_def ceillog2_def)
qed

lemma getRanges_exact_engine:
  assumes "1 \<le> L"
  shows "\<exists>rs. getRanges exact_log2q L True = Some (map Some rs) \<and> exactly_tiles rs L
      \<and> 1 \<le> length rs \<and> length rs \<le> 1024"
proof -
  have "L \<le> 2 ^ nat \<lceil>exact_log2q L\<rceil>"
    by (simp only: exact_log2q_ceillog2 [OF assms] two_power_ceillog2_ge)
  with getRanges_tiles [OF assms, of exact_log2q True] show ?thesis
    by (cases "L \<le> 549755813888") auto
qed

lemma spec_quot_gt: "0 < p \<Longrightarrow> real n / real p > real c \<longleftrightarrow> c * p < n"
proof -
  assume p: "0 < p"
  then have "real c < real n / real p \<longleftrightarrow> real c * real p < real n"
    by (simp add: pos_less_divide_eq)
  also have "\<dots> \<longleftrightarrow> real (c * p) < real n" by simp
  also have "\<dots> \<longleftrightarrow> c * p < n" by (rule of_nat_less_iff)
  finally show ?thesis .
qed

lemma js_quot_gt_nat:
  "0 < p \<Longrightarrow> js_quot_gt (int n) (int p) (int c) \<longleftrightarrow> real n / real p > real c"
proof -
  assume p: "0 < p"
  then have "js_quot_gt (int n) (int p) (int c) \<longleftrightarrow> int c * int p < int n"
    by (simp add: js_quot_gt_pos)
  also have "\<dots> \<longleftrightarrow> c * p < n"
    by (simp only: of_nat_mult [symmetric] of_nat_less_iff)
  finally show ?thesis using p by (simp add: spec_quot_gt)
qed

lemma getRangeSize_loop1_spec:
  "0 < p \<Longrightarrow> getRangeSize_loop1 (int n) (int p) = Some (int (spec_double_to_1000 n p))"
proof (induction n p rule: spec_double_to_1000.induct)
  case (1 n p)
  have q: "js_quot_gt (int n) (int p) 1000 \<longleftrightarrow> real n / real p > 1000"
    using js_quot_gt_nat [OF "1.prems", of n 1000] by simp
  show ?case
  proof (cases "real n / real p > 1000 \<and> p < 512 * (1024 * 1024)")
    case True
    then have "getRangeSize_loop1 (int n) (int (2 * p)) = Some (int (spec_double_to_1000 n (2 * p)))"
      using "1.IH" "1.prems" by simp
    then have "getRangeSize_loop1 (int n) (int p * 2) = Some (int (spec_double_to_1000 n (2 * p)))"
      by (simp add: mult.commute)
    with True q show ?thesis
      by (subst getRangeSize_loop1.simps, subst spec_double_to_1000.simps) simp
  next
    case False
    with q show ?thesis
      by (subst getRangeSize_loop1.simps, subst spec_double_to_1000.simps) auto
  qed
qed

lemma getRangeSize_loop2_spec:
  "0 < p \<Longrightarrow> getRangeSize_loop2 (int n) (int p) = Some (int (spec_double_to_10000 n p))"
proof (induction n p rule: spec_double_to_10000.induct)
  case (1 n p)
  have q: "js_quot_gt (int n) (int p) 10000 \<longleftrightarrow> real n / real p > 10000"
    using js_quot_gt_nat [OF "1.prems", of n 10000] by simp
  show ?case
  proof (cases "real n / real p > 10000")
    case True
    then have "getRangeSize_loop2 (int n) (int (2 * p)) = Some (int (spec_double_to_10000 n (2 * p)))"
      using "1.IH" "1.prems" by simp
    then have "getRangeSize_loop2 (int n) (int p * 2) = Some (int (spec_double_to_10000 n (2 * p)))"
      by (simp add: mult.commute)
    with True q show ?thesis
      by (subst getRangeSize_loop2.simps, subst spec_double_to_10000.simps) simp
  next
    case False
    with q show ?thesis
      by (subst getRangeSize_loop2.simps, subst spec_double_to_10000.simps) auto
  qed
qed

lemma spec_double_to_1000_pos: "0 < p \<Longrightarrow> 0 < spec_double_to_1000 n p"
proof (induction n p rule: spec_double_to_1000.induct)
  case (1 n p)
  then show ?case by (subst spec_double_to_1000.simps) auto
qed

lemma spec_double_to_10000_pos: "0 < p \<Longrightarrow> 0 < spec_double_to_10000 n p"
proof (induction n p rule: spec_double_to_10000.induct)
  case (1 n p)
  then show ?case by (subst spec_double_to_10000.simps) auto
qed

lemma spec_partSize_pos: "0 < spec_partSize n"
  by (simp add: spec_partSize_def spec_double_to_1000_pos spec_double_to_10000_pos)

lemma getRangeSize_spec:
  assumes "16777216 < n"
  shows "getRangeSize (int n) = Some (int (spec_partSize n))"
proof -
  have "getRangeSize_loop1 (int n) (int 16777216) = Some (int (spec_double_to_1000 n 16777216))"
    by (rule getRangeSize_loop1_spec) simp
  moreover have "getRangeSize_loop2 (int n) (int (spec_double_to_1000 n 16777216))
      = Some (int (spec_double_to_10000 n (spec_double_to_1000 n 16777216)))"
    by (rule getRangeSize_loop2_spec) (simp add: spec_double_to_1000_pos)
  ultimately show ?thesis
    using assms by (simp add: getRangeSize_def spec_partSize_def)
qed

lemma spec_nextPow2_from_bounds:
  "p = 2 ^ j \<Longrightarrow> p < 2 * n \<Longrightarrow>
     \<exists>k. spec_nextPow2_from p n = 2 ^ k \<and> n \<le> 2 ^ k \<and> 2 ^ k < 2 * n"
proof (induction p n arbitrary: j rule: spec_nextPow2_from.induct)
  case (1 p n)
  show ?case
  proof (cases "n \<le> p")
    case True
    with "1.prems" show ?thesis
      by (subst spec_nextPow2_from.simps) auto
  next
    case False
    have "p \<noteq> 0" using "1.prems" by simp
    have "\<exists>k. spec_nextPow2_from (2 * p) n = 2 ^ k \<and> n \<le> 2 ^ k \<and> 2 ^ k < 2 * n"
      using False \<open>p \<noteq> 0\<close> "1.prems" by (intro "1.IH" [of "Suc j"]) auto
    with False \<open>p \<noteq> 0\<close> show ?thesis
      by (subst spec_nextPow2_from.simps) simp
  qed
qed

lemma spec_nextPow2_ceillog2:
  assumes "0 < n"
  shows "spec_nextPow2 n = 2 ^ ceillog2 n"
proof -
  obtain k where k: "spec_nextPow2_from 1 n = 2 ^ k" "n \<le> 2 ^ k" "2 ^ k < 2 * n"
    using spec_nextPow2_from_bounds [of 1 0 n] assms by auto
  then have "ceillog2 n = k" by (intro ceillog2_eqI)
  with k show ?thesis by (simp add: spec_nextPow2_def)
qed

lemma spec_nextPow2_least:
  assumes "0 < n"
  shows "spec_nextPow2 n = 2 ^ (LEAST k. n \<le> 2 ^ k)"
proof -
  have "(LEAST k. n \<le> 2 ^ k) = ceillog2 n"
    by (rule Least_equality) (simp_all add: le_two_power_ceillog2 ceillog2_le_iff [OF assms])
  then show ?thesis by (simp add: spec_nextPow2_ceillog2 [OF assms])
qed

lemma getGCPRangeSize_spec:
  assumes "16777216 < n"
    and "n \<le> 549755813888 \<or> nat \<lceil>log2q (int n)\<rceil> = ceillog2 n"
  shows "getGCPRangeSize log2q (int n) = Some (int (spec_gcpPartSize n))"
proof -
  have n: "0 < n" using assms(1) by simp
  have rs: "getRangeSize (int n) = Some (int (spec_partSize n))"
    by (rule getRangeSize_spec [OF assms(1)])
  have q: "js_quot_gt (int n) (int (spec_partSize n)) MPU_GCP_MAX_PARTS
      \<longleftrightarrow> real n / real (spec_partSize n) > 1024"
    using js_quot_gt_nat [OF spec_partSize_pos, of n n 1024] by (simp add: MPU_GCP_MAX_PARTS_def)
  show ?thesis
  proof (cases "real n / real (spec_partSize n) > 1024")
    case False
    with rs q show ?thesis
      by (simp add: getGCPRangeSize_def spec_gcpPartSize_def Let_def)
  next
    case True
    have "\<not> n \<le> 549755813888"
    proof
      assume "n \<le> 549755813888"
      then have "int n \<le> 549755813888" by simp
      moreover have "1 \<le> int n" using n by simp
      ultimately have "int n \<le> 1024 * int (spec_partSize n)"
        using getRangeSize_returns [of "int n"] rs by auto
      moreover have "1024 * int (spec_partSize n) < int n"
        using True q spec_partSize_pos [of n] by (simp add: js_quot_gt_pos MPU_GCP_MAX_PARTS_def)
      ultimately show False by simp
    qed
    with assms(2) have e: "nat \<lceil>log2q (int n)\<rceil> = ceillog2 n" by simp
    have "\<lceil>real_of_int (2 ^ nat \<lceil>log2q (int n)\<rceil>) / real_of_int MPU_GCP_MAX_PARTS\<rceil>
        = int (nat \<lceil>real (spec_nextPow2 n) / 1024\<rceil>)"
    proof -
      have "0 \<le> \<lceil>real (spec_nextPow2 n) / 1024\<rceil>"
        by (simp add: ceiling_le_iff [symmetric] zero_le_ceiling)
      then show ?thesis
        by (simp add: e spec_nextPow2_ceillog2 [OF n] MPU_GCP_MAX_PARTS_def)
    qed
    with rs q True show ?thesis
      by (simp add: getGCPRangeSize_def spec_gcpPartSize_def Let_def)
  qed
qed












lemma getRangeSize_2_47: "getRangeSize 140737488355328 = Some 17179869184"
  by code_simp

lemma getGCPRangeSize_2_47:
  "getGCPRangeSize (\<lambda>contentLen. 47 + 1 / 2 ^ 47) 140737488355328 = Some 274877906944"
  "getGCPRangeSize (\<lambda>contentLen. 47) 140737488355328 = Some 137438953472"
  by (simp_all add: getGCPRangeSize_def getRangeSize_2_47 js_quot_gt_pos MPU_GCP_MAX_PARTS_def)

lemma spec_gcpPartSize_2_47: "spec_gcpPartSize 140737488355328 = 137438953472"
proof -
  have "ceillog2 (2 ^ 47) = 47" by (rule ceillog2_2_power)
  then have "nat \<lceil>(\<lambda>contentLen::int. 47::real) (int 140737488355328)\<rceil> = ceillog2 140737488355328"
    by simp
  then have "getGCPRangeSize (\<lambda>contentLen. 47) (int 140737488355328)
      = Some (int (spec_gcpPartSize 140737488355328))"
    by (intro getGCPRangeSize_spec) simp_all
  with getGCPRangeSize_2_47(2) show ?thesis by simp
qed




subsection \<open>Outcome of a replication task\<close>

text \<open>
  Claim C2. \<open>_handleReplicationOutcome\<close> maps the outcome of the task as follows. On
  success it publishes the status \<open>COMPLETED\<close> and returns \<open>{ committable: false }\<close>.
  On an error that is \<open>BadRole\<close>, or that is \<open>NoSuchEntity\<close> or \<open>AccessDenied\<close> with
  the origin \<open>source\<close>, it publishes nothing and calls \<open>done()\<close>. On \<open>ObjNotFound\<close> or
  \<open>InvalidObjectState\<close> it publishes nothing and calls \<open>done()\<close>. On every other
  error it publishes \<open>FAILED\<close> with the description of the error and returns
  \<open>{ committable: false }\<close>.
\<close>

theorem handleReplicationOutcome_cases:
  "(published (handleReplicationOutcome None) = [(''COMPLETED'', None)]
      \<and> done_with (handleReplicationOutcome None) = Done_not_committable)
   \<and> (has_flag e ''BadRole'' \<or>
        (err_origin e = Some ''source'' \<and> (is_error e ''NoSuchEntity'' \<or> is_error e ''AccessDenied''))
      \<longrightarrow> published (handleReplicationOutcome (Some e)) = []
          \<and> done_with (handleReplicationOutcome (Some e)) = Done_no_result)
   \<and> (is_error e ''ObjNotFound'' \<or> is_error e ''InvalidObjectState''
      \<longrightarrow> published (handleReplicationOutcome (Some e)) = []
          \<and> done_with (handleReplicationOutcome (Some e)) = Done_no_result)
   \<and> (\<not> (has_flag e ''BadRole'' \<or>
        (err_origin e = Some ''source'' \<and> (is_error e ''NoSuchEntity'' \<or> is_error e ''AccessDenied'')))
      \<and> \<not> is_error e ''ObjNotFound'' \<and> \<not> is_error e ''InvalidObjectState''
      \<longrightarrow> published (handleReplicationOutcome (Some e)) = [(''FAILED'', Some (err_description e))]
          \<and> done_with (handleReplicationOutcome (Some e)) = Done_not_committable)"
  by (auto simp: handleReplicationOutcome_def is_error_def)



text \<open>The theorem at an \<open>AccessDenied\<close> error of the SDK, once with the origin \<open>source\<close> and once without.\<close>

theorem handleReplicationOutcome_cases_witness:
  "published (handleReplicationOutcome (Some \<lparr> err_flags = [], err_code = Some ''AccessDenied'',
       err_description = NoDescription, err_origin = Some ''source'', err_retryable = False,
       err_statusCode = Some 403 \<rparr>)) = []
   \<and> published (handleReplicationOutcome (Some \<lparr> err_flags = [], err_code = Some ''AccessDenied'',
       err_description = NoDescription, err_origin = None, err_retryable = False,
       err_statusCode = Some 403 \<rparr>)) = [(''FAILED'', Some NoDescription)]"
  using handleReplicationOutcome_cases [of "\<lparr> err_flags = [], err_code = Some ''AccessDenied'',
       err_description = NoDescription, err_origin = Some ''source'', err_retryable = False,
       err_statusCode = Some 403 \<rparr>"]
    handleReplicationOutcome_cases [of "\<lparr> err_flags = [], err_code = Some ''AccessDenied'',
       err_description = NoDescription, err_origin = None, err_retryable = False,
       err_statusCode = Some 403 \<rparr>"]
  by (simp add: is_error_def has_flag_def)

subsection \<open>Order of events in a trace\<close>

lemma precedes_Nil [simp]: "precedes a b []"
  by (simp add: precedes_def)

lemma precedes_Cons [simp]: "precedes a b (e # evs) \<longleftrightarrow> e \<noteq> b \<and> (e = a \<or> precedes a b evs)"
proof
  assume p: "precedes a b (e # evs)"
  have "e \<noteq> b"
  proof
    assume "e = b"
    then have "e # evs = [] @ b # evs" by simp
    with p have "a \<in> set []" unfolding precedes_def by blast
    then show False by simp
  qed
  moreover have "e = a \<or> precedes a b evs"
  proof (cases "e = a")
    case False
    have "precedes a b evs"
      unfolding precedes_def
    proof (intro allI impI)
      fix pre post
      assume "evs = pre @ b # post"
      then have "e # evs = (e # pre) @ b # post" by simp
      with p have "a \<in> set (e # pre)" unfolding precedes_def by blast
      with False show "a \<in> set pre" by simp
    qed
    then show ?thesis ..
  qed simp
  ultimately show "e \<noteq> b \<and> (e = a \<or> precedes a b evs)" ..
next
  assume h: "e \<noteq> b \<and> (e = a \<or> precedes a b evs)"
  show "precedes a b (e # evs)"
    unfolding precedes_def
  proof (intro allI impI)
    fix pre post
    assume eq: "e # evs = pre @ b # post"
    with h obtain pre' where pre: "pre = e # pre'" and evs: "evs = pre' @ b # post"
      by (cases pre) auto
    from h show "a \<in> set pre"
    proof (elim conjE disjE)
      assume "e = a"
      with pre show ?thesis by simp
    next
      assume "precedes a b evs"
      with evs have "a \<in> set pre'" unfolding precedes_def by blast
      with pre show ?thesis by simp
    qed
  qed
qed

lemma precedes_append [simp]:
  "precedes a b (tr @ evs) \<longleftrightarrow> precedes a b tr \<and> (a \<in> set tr \<or> precedes a b evs)"
  by (induction tr) auto

lemma precedes_absent: "b \<notin> set tr \<Longrightarrow> precedes a b tr"
  by (induction tr) auto

subsection \<open>The invariant holds along every run of a multipart upload\<close>

lemma getRangeAndPutMPUPartOnce_events:
  "ev \<in> set (getRangeAndPutMPUPartOnce r n u) \<Longrightarrow>
     (\<exists>br. ev = Request (GetObject n br)) \<or> (\<exists>sz. ev = Request (MultipleBackendPutMPUPart n u sz))"
  by (auto simp: getRangeAndPutMPUPartOnce_def Let_def split: option.splits if_splits)

lemma precedes_init_put_attempt:
  assumes "InitiateMPU_returned u \<in> set tr"
  shows "InitiateMPU_returned u' \<in> set tr
     \<or> precedes (InitiateMPU_returned u') (Request (MultipleBackendPutMPUPart n' u' sz))
          (getRangeAndPutMPUPartOnce r n u)"
proof (cases "u' = u")
  case True
  with assms show ?thesis by simp
next
  case False
  then have "Request (MultipleBackendPutMPUPart n' u' sz) \<notin> set (getRangeAndPutMPUPartOnce r n u)"
    by (auto dest: getRangeAndPutMPUPartOnce_events)
  then show ?thesis by (simp add: precedes_absent)
qed

lemma precedes_complete_attempt:
  "precedes a (Request (MultipleBackendCompleteMPU u' b)) (getRangeAndPutMPUPartOnce r n u)"
  by (rule precedes_absent) (auto dest: getRangeAndPutMPUPartOnce_events)

lemma attempt_not_complete: "ev \<in> set (getRangeAndPutMPUPartOnce r n u) \<Longrightarrow> \<not> is_complete ev"
  by (auto dest: getRangeAndPutMPUPartOnce_events)

lemma attempt_not_abort: "ev \<in> set (getRangeAndPutMPUPartOnce r n u) \<Longrightarrow> \<not> is_abort ev"
  by (auto dest: getRangeAndPutMPUPartOnce_events)

lemma attempt_not_succeeded: "Part_succeeded m \<notin> set (getRangeAndPutMPUPartOnce r n u)"
  by (auto dest: getRangeAndPutMPUPartOnce_events)

lemma launch_inv:
  assumes "mpu_inv t e s" and "st_status s = Uploading" and "st_uploadId s = Some u"
  shows "mpu_inv t e (launch u s)"
  using assms
  by (auto simp: mpu_inv_def mpu_core_def parts_accounted_def launch_def Let_def precedes_init_put_attempt precedes_complete_attempt
        dest: attempt_not_complete attempt_not_abort
        elim: less_SucE)


lemma precedes_no_complete:
  "\<forall>ev \<in> set tr. \<not> is_complete ev \<Longrightarrow> precedes a (Request (MultipleBackendCompleteMPU u b)) tr"
  by (rule precedes_absent) auto

lemma launch_fields [simp]:
  "st_status (launch u s) = st_status s" "st_uploadId (launch u s) = st_uploadId s"
  by (simp_all add: launch_def Let_def)

lemma launch_times_inv:
  "mpu_inv t e s \<Longrightarrow> st_status s = Uploading \<Longrightarrow> st_uploadId s = Some u
     \<Longrightarrow> mpu_inv t e (launch_times k u s)"
  by (induction k arbitrary: s) (simp_all add: launch_inv)

lemma initiateMPU_returned_inv:
  assumes "mpu_inv t e s" and "st_status s = Initiating"
  shows "mpu_inv t e (initiateMPU_returned t e u s)"
proof (cases "getRanges (log2_quotient t) (oqe_contentLength e) (endpointType t = ''gcp'')")
  case None
  with assms show ?thesis
    by (auto simp: initiateMPU_returned_def completeRangedMPU_def mpu_inv_def mpu_core_def
          intro: precedes_no_complete)
next
  case (Some ranges)
  let ?s = "s\<lparr> st_uploadId := Some u, st_trace := st_trace s @ [InitiateMPU_returned u],
              st_status := Uploading, st_ranges := ranges,
              st_results := replicate (length ranges) None \<rparr>"
  have "mpu_inv t e ?s"
    using assms Some by (auto simp: mpu_inv_def mpu_core_def parts_accounted_def intro: precedes_no_complete)
  then have "mpu_inv t e (launch_times (min MPU_CONC_LIMIT (length ranges)) u ?s)"
    by (rule launch_times_inv) simp_all
  with Some show ?thesis
    by (simp add: initiateMPU_returned_def completeRangedMPU_def)
qed

lemma sendInitiateMPU_inv:
  assumes "mpu_inv t e s" and "st_status s = Initiating"
  shows "mpu_inv t e (sendInitiateMPU t e s)"
proof (cases "endpointType t = ''azure''")
  case True
  with assms show ?thesis by (simp add: sendInitiateMPU_def initiateMPU_returned_inv)
next
  case False
  with assms show ?thesis by (auto simp: sendInitiateMPU_def mpu_inv_def mpu_core_def)
qed

lemma getAndPutMultipartUploadOnce_inv: "mpu_inv t e (getAndPutMultipartUploadOnce t e)"
proof -
  let ?s = "\<lparr> st_status = Initiating, st_uploadId = None, st_ranges = [], st_started = 0,
                st_in_flight = [], st_results = [], st_checks = 0, st_trace = [] \<rparr>"
  have s: "mpu_inv t e ?s" by (simp add: mpu_inv_def mpu_core_def parts_accounted_def)
  then have s1: "mpu_inv t e (?s\<lparr> st_checks := 1 \<rparr>)" by (simp add: mpu_inv_def mpu_core_def parts_accounted_def)
  have a: "mpu_inv t e (sendInitiateMPU t e ?s)"
    by (rule sendInitiateMPU_inv [OF s]) simp
  have b: "mpu_inv t e (sendInitiateMPU t e (?s\<lparr> st_checks := 1 \<rparr>))"
    by (rule sendInitiateMPU_inv [OF s1]) simp
  have c: "mpu_inv t e (?s\<lparr> st_status := Crashed exc \<rparr>)" for exc
    by (simp add: mpu_inv_def mpu_core_def parts_accounted_def)
  have d: "mpu_inv t e (?s\<lparr> st_status := Finished, st_checks := 1, st_trace := [Done (Some err)] \<rparr>)" for err
    by (simp add: mpu_inv_def mpu_core_def parts_accounted_def)
  show ?thesis
    using a b c d
    by (simp add: getAndPutMultipartUploadOnce_def Let_def split: sum.splits option.splits)
qed


lemma next_called_error_inv:
  assumes "mpu_core t e s"
  shows "mpu_inv t e (next_called n (Some er) r s)"
  using assms
  by (auto simp: next_called_def mpu_inv_def mpu_core_def intro: precedes_no_complete)

lemma next_called_success_inv:
  assumes "mpu_inv t e s"
  shows "mpu_inv t e (next_called n None r s)"
proof (cases "st_status s = Uploading")
  case False
  with assms show ?thesis by (simp add: next_called_def)
next
  case True
  let ?s1 = "s\<lparr> st_results := (st_results s)[n - 1 := r] \<rparr>"
  have s1: "mpu_inv t e ?s1"
    using assms by (simp add: mpu_inv_def mpu_core_def parts_accounted_def)
  from assms True obtain u where u: "st_uploadId s = Some u"
    by (auto simp: mpu_inv_def mpu_core_def)
  show ?thesis
  proof (cases "st_started s < length (st_ranges s)")
    case some: True
    have "mpu_inv t e (launch u ?s1)"
      by (rule launch_inv [OF s1]) (simp_all add: True u)
    with True some u show ?thesis by (simp add: next_called_def)
  next
    case nomore: False
    show ?thesis
    proof (cases "st_in_flight s = []")
      case False
      with True nomore s1 show ?thesis by (simp add: next_called_def)
    next
      case empty: True
      have all: "\<forall>m. 1 \<le> m \<and> m \<le> length (st_ranges s) \<longrightarrow> Part_succeeded m \<in> set (st_trace s)"
        using assms True nomore empty
        by (auto simp: mpu_inv_def mpu_core_def parts_accounted_def)
      let ?s2 = "?s1\<lparr> st_status := Completing,
           st_trace := st_trace ?s1 @
             [Request (MultipleBackendCompleteMPU u (List.map_filter id (st_results ?s1)))] \<rparr>"
      have "mpu_inv t e ?s2"
        using assms True all u
        by (auto simp: mpu_inv_def mpu_core_def)
      with True nomore empty u show ?thesis by (simp add: next_called_def)
    qed
  qed
qed

lemma precedes_no_put:
  "\<forall>ev \<in> set tr. \<not> is_put ev \<Longrightarrow> precedes a (Request (MultipleBackendPutMPUPart n u sz)) tr"
  by (rule precedes_absent) auto

lemma mpu_core_append:
  assumes "mpu_core t e s"
    and "\<forall>ev \<in> set evs. \<not> is_complete ev \<and> \<not> is_put ev \<and> (oqe_replicationIsNFS e \<or> \<not> is_abort ev)"
  shows "mpu_core t e (s\<lparr> st_trace := st_trace s @ evs \<rparr>)"
  using assms
  by (auto simp: mpu_core_def intro: precedes_no_complete precedes_no_put)

lemma mpu_core_irrelevant [simp]:
  "mpu_core t e (s\<lparr> st_checks := k \<rparr>) = mpu_core t e s"
  "mpu_core t e (s\<lparr> st_results := rs \<rparr>) = mpu_core t e s"
  by (simp_all add: mpu_core_def)

lemma mpu_core_remove:
  "mpu_core t e s \<Longrightarrow> mpu_core t e (s\<lparr> st_in_flight := removeAll n (st_in_flight s) \<rparr>)"
  by (simp add: mpu_core_def)

lemma mpu_core_crashed:
  "mpu_core t e s \<Longrightarrow> mpu_inv t e (s\<lparr> st_status := Crashed exc \<rparr>)"
  by (simp add: mpu_core_def mpu_inv_def)

lemma checkMPUState_events:
  "checkMPUState t e u k = Inr (evs, r) \<Longrightarrow> ev \<in> set evs \<Longrightarrow> ev = Request (MultipleBackendAbortMPU u)"
  by (auto simp: checkMPUState_def split: sum.splits option.splits if_splits)

lemma checkMPUState_NFS_events:
  assumes "checkMPUState t e u k = Inr (evs, r)" and "oqe_replicationIsNFS e"
  shows "\<forall>ev \<in> set evs. \<not> is_complete ev \<and> \<not> is_put ev \<and> (oqe_replicationIsNFS e \<or> \<not> is_abort ev)"
  using assms by (auto dest: checkMPUState_events)

lemma part_failed_inv:
  assumes "mpu_inv t e s" and "st_uploadId s = Some u"
  shows "mpu_inv t e (part_returned t e n (Inl err) s)"
proof -
  let ?s1 = "s\<lparr> st_in_flight := removeAll n (st_in_flight s),
                st_trace := st_trace s @ [Part_failed n err] \<rparr>"
  have "mpu_core t e (s\<lparr> st_trace := st_trace s @ [Part_failed n err] \<rparr>)"
    using assms(1) by (intro mpu_core_append) (simp_all add: mpu_inv_def)
  then have core: "mpu_core t e ?s1"
    by (simp add: mpu_core_def)
  show ?thesis
  proof (cases "oqe_replicationIsNFS e")
    case False
    with assms(2) show ?thesis
      by (simp add: part_returned_def Let_def next_called_error_inv [OF core])
  next
    case True
    show ?thesis
    proof (cases "checkMPUState t e u (st_checks ?s1)")
      case (Inl exc)
      with True assms(2) mpu_core_crashed [OF core, of exc] show ?thesis
        by (simp add: part_returned_def Let_def)
    next
      case (Inr p)
      obtain evs r where p: "p = (evs, r)" by (cases p)
      have "mpu_core t e (?s1\<lparr> st_trace := st_trace ?s1 @ evs \<rparr>)"
        using core checkMPUState_NFS_events [OF Inr [unfolded p] True]
        by (rule mpu_core_append)
      then have c2: "mpu_core t e (?s1\<lparr> st_checks := st_checks ?s1 + 1, st_trace := st_trace ?s1 @ evs \<rparr>)"
        by (simp add: mpu_core_def)
      show ?thesis
        using True assms(2) Inr p next_called_error_inv [OF c2]
        by (cases r) (simp_all add: part_returned_def Let_def)
    qed
  qed
qed

lemma part_succeeded_inv:
  assumes "mpu_inv t e s" and "st_uploadId s = Some u"
  shows "mpu_inv t e (part_returned t e n (Inr data) s)"
proof -
  let ?s1 = "s\<lparr> st_in_flight := removeAll n (st_in_flight s),
                st_trace := st_trace s @ [Part_succeeded n] \<rparr>"
  have "mpu_core t e (s\<lparr> st_trace := st_trace s @ [Part_succeeded n] \<rparr>)"
    using assms(1) by (intro mpu_core_append) (simp_all add: mpu_inv_def)
  then have core: "mpu_core t e ?s1"
    by (simp add: mpu_core_def)
  have acc: "st_status s = Uploading \<Longrightarrow> parts_accounted ?s1"
    using assms(1) by (auto simp: mpu_inv_def parts_accounted_def)
  have inv1: "mpu_inv t e ?s1"
    using core acc by (simp add: mpu_inv_def)
  show ?thesis
  proof (cases "oqe_replicationIsNFS e")
    case False
    with assms(2) show ?thesis
      by (simp add: part_returned_def Let_def next_called_success_inv [OF inv1])
  next
    case True
    show ?thesis
    proof (cases "checkMPUState t e u (st_checks ?s1)")
      case (Inl exc)
      with True assms(2) mpu_core_crashed [OF core, of exc] show ?thesis
        by (simp add: part_returned_def Let_def)
    next
      case (Inr p)
      obtain evs r where p: "p = (evs, r)" by (cases p)
      let ?s2 = "?s1\<lparr> st_checks := st_checks ?s1 + 1, st_trace := st_trace ?s1 @ evs \<rparr>"
      have "mpu_core t e (?s1\<lparr> st_trace := st_trace ?s1 @ evs \<rparr>)"
        using core checkMPUState_NFS_events [OF Inr [unfolded p] True]
        by (rule mpu_core_append)
      then have c2: "mpu_core t e ?s2"
        by (simp add: mpu_core_def)
      have "st_status s = Uploading \<Longrightarrow> parts_accounted ?s2"
        using acc by (auto simp: parts_accounted_def)
      with c2 have i2: "mpu_inv t e ?s2" by (simp add: mpu_inv_def)
      show ?thesis
        using True assms(2) Inr p next_called_error_inv [OF c2] next_called_success_inv [OF i2]
        by (cases r) (simp_all add: part_returned_def Let_def)
    qed
  qed
qed

lemma finish_inv: "mpu_inv t e s \<Longrightarrow> mpu_inv t e (finish err s)"
  by (auto simp: finish_def mpu_inv_def mpu_core_def intro: precedes_no_complete)

lemma retry_attempt_inv:
  assumes "mpu_inv t e s" and "st_uploadId s = Some u"
  shows "mpu_inv t e (s\<lparr> st_trace := st_trace s @ getRangeAndPutMPUPartOnce r n u \<rparr>)"
  using assms
  by (auto simp: mpu_inv_def mpu_core_def parts_accounted_def precedes_init_put_attempt
        precedes_complete_attempt
        dest: attempt_not_complete attempt_not_abort)

lemma step_inv:
  assumes "mpu_inv t e s"
  shows "mpu_inv t e (step t e s resp)"
proof (cases resp)
  case (InitiateMPU_response r)
  show ?thesis
  proof (cases "st_status s = Initiating")
    case False
    with assms InitiateMPU_response show ?thesis
      by (simp add: step_def split: run_status.splits)
  next
    case True
    with assms InitiateMPU_response show ?thesis
      by (simp add: step_def initiateMPU_returned_inv finish_inv split: sum.splits)
  qed
next
  case (Part_response n ev again)
  show ?thesis
  proof (cases "st_uploadId s")
    case None
    with assms Part_response show ?thesis
      by (simp add: step_def part_returned_def split: run_status.splits sum.splits)
  next
    case (Some u)
    with assms Part_response show ?thesis
      by (simp add: step_def part_failed_inv part_succeeded_inv retry_attempt_inv
            split: run_status.splits sum.splits)
  qed
next
  case (CompleteMPU_response r)
  with assms show ?thesis
    by (simp add: step_def finish_inv split: run_status.splits sum.splits)
qed


lemma run_inv: "mpu_inv t e (run t e responses)"
proof -
  have "mpu_inv t e s \<Longrightarrow> mpu_inv t e (foldl (step t e) s responses)" for s
    by (induction responses arbitrary: s) (simp_all add: step_inv)
  then show ?thesis
    by (simp add: run_def getAndPutMultipartUploadOnce_inv)
qed

lemma part_failure_ends_run:
  assumes "\<not> oqe_replicationIsNFS e" and "st_status s = Uploading" and "n \<in> set (st_in_flight s)"
    and "st_uploadId s = Some u" and "passed_on (putMPUPart_callbacks ev) = Inl err"
    and "\<not> (err_retryable err \<and> again)"
  shows "st_status (step t e s (Part_response n ev again)) = Finished"
    and "st_trace (step t e s (Part_response n ev again)) =
          st_trace s @ [Part_failed n err, Done (Some (err\<lparr>err_origin := Some ''source''\<rparr>))]"
  using assms
  by (auto simp: step_def part_returned_def next_called_def Let_def)

lemma mpu_trace_order:
  "(\<forall>pre post n u sz.
      st_trace (run t e responses) = pre @ Request (MultipleBackendPutMPUPart n u sz) # post
      \<longrightarrow> InitiateMPU_returned u \<in> set pre)
   \<and> (\<forall>pre post u b ranges n.
      st_trace (run t e responses) = pre @ Request (MultipleBackendCompleteMPU u b) # post
      \<and> getRanges (log2_quotient t) (oqe_contentLength e) (endpointType t = ''gcp'') = Some ranges
      \<and> 1 \<le> n \<and> n \<le> length ranges
      \<longrightarrow> Part_succeeded n \<in> set pre)
   \<and> (\<not> oqe_replicationIsNFS e \<longrightarrow>
        (\<forall>u. Request (MultipleBackendAbortMPU u) \<notin> set (st_trace (run t e responses))))"
proof (intro conjI allI impI)
  fix pre post n u sz
  assume "st_trace (run t e responses) = pre @ Request (MultipleBackendPutMPUPart n u sz) # post"
  moreover have "precedes (InitiateMPU_returned u) (Request (MultipleBackendPutMPUPart n u sz))
      (st_trace (run t e responses))"
    using run_inv [of t e responses] by (simp add: mpu_inv_def mpu_core_def)
  ultimately show "InitiateMPU_returned u \<in> set pre"
    unfolding precedes_def by blast
next
  fix pre post u b ranges n
  assume a: "st_trace (run t e responses) = pre @ Request (MultipleBackendCompleteMPU u b) # post
      \<and> getRanges (log2_quotient t) (oqe_contentLength e) (endpointType t = ''gcp'') = Some ranges
      \<and> 1 \<le> n \<and> n \<le> length ranges"
  then have "\<exists>ev \<in> set (st_trace (run t e responses)). is_complete ev"
    by auto
  then have "getRanges (log2_quotient t) (oqe_contentLength e) (endpointType t = ''gcp'') = Some (st_ranges (run t e responses))"
    using run_inv [of t e responses] by (simp add: mpu_inv_def mpu_core_def)
  with a have "1 \<le> n \<and> n \<le> length (st_ranges (run t e responses))" by simp
  then have "precedes (Part_succeeded n) (Request (MultipleBackendCompleteMPU u b))
      (st_trace (run t e responses))"
    using run_inv [of t e responses] by (simp add: mpu_inv_def mpu_core_def)
  with a show "Part_succeeded n \<in> set pre"
    unfolding precedes_def by blast
next
  fix u
  assume "\<not> oqe_replicationIsNFS e"
  then have "\<forall>ev \<in> set (st_trace (run t e responses)). \<not> is_abort ev"
    using run_inv [of t e responses] by (simp add: mpu_inv_def mpu_core_def)
  then show "Request (MultipleBackendAbortMPU u) \<notin> set (st_trace (run t e responses))"
    by auto
qed

text \<open>
  Claim C3, as amended. In every run of a multipart upload, no
  \<open>multipleBackendPutMPUPart\<close> request is sent before \<open>_initiateMPU\<close> has called back
  with the upload id the request carries; \<open>multipleBackendCompleteMPU\<close> is sent only
  after every planned part has ended with success; for an entry whose source is not NFS
  no \<open>multipleBackendAbortMPU\<close> request is ever sent; and for such an entry, when a
  part fails and is not retried while the parts are uploaded, the run ends at once with
  \<open>doneOnce(err)\<close>, the error carrying the origin \<open>source\<close>.
\<close>

theorem mpu_run_order:
  "(\<forall>pre post n u sz.
      st_trace (run t e responses) = pre @ Request (MultipleBackendPutMPUPart n u sz) # post
      \<longrightarrow> InitiateMPU_returned u \<in> set pre)
   \<and> (\<forall>pre post u b ranges n.
      st_trace (run t e responses) = pre @ Request (MultipleBackendCompleteMPU u b) # post
      \<and> getRanges (log2_quotient t) (oqe_contentLength e) (endpointType t = ''gcp'') = Some ranges
      \<and> 1 \<le> n \<and> n \<le> length ranges
      \<longrightarrow> Part_succeeded n \<in> set pre)
   \<and> (\<not> oqe_replicationIsNFS e \<longrightarrow>
        (\<forall>u. Request (MultipleBackendAbortMPU u) \<notin> set (st_trace (run t e responses))))
   \<and> (\<forall>s n u ev err again.
        \<not> oqe_replicationIsNFS e \<and> st_status s = Uploading \<and> n \<in> set (st_in_flight s)
        \<and> st_uploadId s = Some u \<and> passed_on (putMPUPart_callbacks ev) = Inl err
        \<and> \<not> (err_retryable err \<and> again)
        \<longrightarrow> st_status (step t e s (Part_response n ev again)) = Finished
          \<and> st_trace (step t e s (Part_response n ev again)) =
              st_trace s @ [Part_failed n err, Done (Some (err\<lparr>err_origin := Some ''source''\<rparr>))])"
proof -
  have "\<forall>s n u ev err again.
        \<not> oqe_replicationIsNFS e \<and> st_status s = Uploading \<and> n \<in> set (st_in_flight s)
        \<and> st_uploadId s = Some u \<and> passed_on (putMPUPart_callbacks ev) = Inl err
        \<and> \<not> (err_retryable err \<and> again)
        \<longrightarrow> st_status (step t e s (Part_response n ev again)) = Finished
          \<and> st_trace (step t e s (Part_response n ev again)) =
              st_trace s @ [Part_failed n err, Done (Some (err\<lparr>err_origin := Some ''source''\<rparr>))]"
  proof (intro allI impI)
    fix s :: mpu_state and n u and ev :: "part_data transfer_event" and err again
    assume h: "\<not> oqe_replicationIsNFS e \<and> st_status s = Uploading \<and> n \<in> set (st_in_flight s)
        \<and> st_uploadId s = Some u \<and> passed_on (putMPUPart_callbacks ev) = Inl err
        \<and> \<not> (err_retryable err \<and> again)"
    then have "\<not> oqe_replicationIsNFS e" "st_status s = Uploading" "n \<in> set (st_in_flight s)"
      "st_uploadId s = Some u" "passed_on (putMPUPart_callbacks ev) = Inl err"
      "\<not> (err_retryable err \<and> again)"
      by simp_all
    then show "st_status (step t e s (Part_response n ev again)) = Finished
          \<and> st_trace (step t e s (Part_response n ev again)) =
              st_trace s @ [Part_failed n err, Done (Some (err\<lparr>err_origin := Some ''source''\<rparr>))]"
      by (intro conjI part_failure_ends_run)
  qed
  then show ?thesis
    using mpu_trace_order [of t e responses, THEN conjunct1]
      mpu_trace_order [of t e responses, THEN conjunct2, THEN conjunct1]
      mpu_trace_order [of t e responses, THEN conjunct2, THEN conjunct2]
    by (intro conjI) assumption+
qed

text \<open>A run of one part that succeeds, and the theorem at this run.\<close>

lemma ex_uploading:
  "st_status (run ex_task ex_entry [InitiateMPU_response (Inr ''u1'')]) = Uploading
   \<and> st_in_flight (run ex_task ex_entry [InitiateMPU_response (Inr ''u1'')]) = [1]
   \<and> st_uploadId (run ex_task ex_entry [InitiateMPU_response (Inr ''u1'')]) = Some ''u1''
   \<and> st_trace (run ex_task ex_entry [InitiateMPU_response (Inr ''u1'')]) =
       [Request MultipleBackendInitiateMPU, InitiateMPU_returned ''u1'',
        Request (GetObject 1 \<lparr>range_start = 0, range_end = 4\<rparr>),
        Request (MultipleBackendPutMPUPart 1 ''u1'' 5)]"
  by code_simp

lemma ex_err_passed:
  "passed_on (putMPUPart_callbacks (DestReq_response (Inl ex_err)) :: part_data handled)
     = Inl (ex_err\<lparr>err_origin := Some ''source''\<rparr>)
   \<and> \<not> err_retryable (ex_err\<lparr>err_origin := Some ''source''\<rparr>)"
  by (simp add: putMPUPart_callbacks_def ex_err_def)

lemma ex_run_ok:
  "st_trace (run ex_task ex_entry [InitiateMPU_response (Inr ''u1''),
      Part_response 1 (DestReq_response (Inr ex_part)) False, CompleteMPU_response (Inr ''v'')]) =
    [Request MultipleBackendInitiateMPU, InitiateMPU_returned ''u1'',
     Request (GetObject 1 \<lparr>range_start = 0, range_end = 4\<rparr>),
     Request (MultipleBackendPutMPUPart 1 ''u1'' 5), Part_succeeded 1,
     Request (MultipleBackendCompleteMPU ''u1''
       [\<lparr>res_PartNumber = [1], res_ETag = [''e''], res_NumberSubParts = None\<rparr>]),
     Done None]"
  by code_simp

theorem mpu_run_order_witness:
  "st_trace (run ex_task ex_entry [InitiateMPU_response (Inr ''u1''),
      Part_response 1 (DestReq_response (Inr ex_part)) False, CompleteMPU_response (Inr ''v'')]) =
     [Request MultipleBackendInitiateMPU, InitiateMPU_returned ''u1'',
      Request (GetObject 1 \<lparr>range_start = 0, range_end = 4\<rparr>)]
     @ Request (MultipleBackendPutMPUPart 1 ''u1'' 5)
     # [Part_succeeded 1,
        Request (MultipleBackendCompleteMPU ''u1''
          [\<lparr>res_PartNumber = [1], res_ETag = [''e''], res_NumberSubParts = None\<rparr>]),
        Done None]
   \<and> InitiateMPU_returned ''u1'' \<in> set [Request MultipleBackendInitiateMPU, InitiateMPU_returned ''u1'',
        Request (GetObject 1 \<lparr>range_start = 0, range_end = 4\<rparr>)]
   \<and> st_trace (run ex_task ex_entry [InitiateMPU_response (Inr ''u1''),
      Part_response 1 (DestReq_response (Inr ex_part)) False, CompleteMPU_response (Inr ''v'')]) =
     [Request MultipleBackendInitiateMPU, InitiateMPU_returned ''u1'',
      Request (GetObject 1 \<lparr>range_start = 0, range_end = 4\<rparr>),
      Request (MultipleBackendPutMPUPart 1 ''u1'' 5), Part_succeeded 1]
     @ Request (MultipleBackendCompleteMPU ''u1''
          [\<lparr>res_PartNumber = [1], res_ETag = [''e''], res_NumberSubParts = None\<rparr>])
     # [Done None]
   \<and> getRanges (log2_quotient ex_task) (oqe_contentLength ex_entry) (endpointType ex_task = ''gcp'')
        = Some [Some \<lparr>range_start = 0, range_end = 4\<rparr>]
   \<and> (1::nat) \<le> 1 \<and> (1::nat) \<le> length [Some \<lparr>range_start = 0, range_end = 4\<rparr>]
   \<and> Part_succeeded 1 \<in> set [Request MultipleBackendInitiateMPU, InitiateMPU_returned ''u1'',
      Request (GetObject 1 \<lparr>range_start = 0, range_end = 4\<rparr>),
      Request (MultipleBackendPutMPUPart 1 ''u1'' 5), Part_succeeded 1]
   \<and> \<not> oqe_replicationIsNFS ex_entry
   \<and> Request (MultipleBackendAbortMPU ''u1'') \<notin> set (st_trace (run ex_task ex_entry
        [InitiateMPU_response (Inr ''u1''),
         Part_response 1 (DestReq_response (Inr ex_part)) False, CompleteMPU_response (Inr ''v'')]))
   \<and> st_status (run ex_task ex_entry [InitiateMPU_response (Inr ''u1'')]) = Uploading
   \<and> st_in_flight (run ex_task ex_entry [InitiateMPU_response (Inr ''u1'')]) = [1]
   \<and> st_uploadId (run ex_task ex_entry [InitiateMPU_response (Inr ''u1'')]) = Some ''u1''
   \<and> passed_on (putMPUPart_callbacks (DestReq_response (Inl ex_err)) :: part_data handled)
        = Inl (ex_err\<lparr>err_origin := Some ''source''\<rparr>)
   \<and> st_status (step ex_task ex_entry (run ex_task ex_entry [InitiateMPU_response (Inr ''u1'')])
        (Part_response 1 (DestReq_response (Inl ex_err)) True)) = Finished"
proof -
  let ?rs = "[InitiateMPU_response (Inr ''u1''),
      Part_response 1 (DestReq_response (Inr ex_part)) False, CompleteMPU_response (Inr ''v'')]"
  let ?pre = "[Request MultipleBackendInitiateMPU, InitiateMPU_returned ''u1'',
        Request (GetObject 1 \<lparr>range_start = 0, range_end = 4\<rparr>)]"
  let ?post = "[Part_succeeded 1,
        Request (MultipleBackendCompleteMPU ''u1''
          [\<lparr>res_PartNumber = [1], res_ETag = [''e''], res_NumberSubParts = None\<rparr>]),
        Done None]"
  let ?pre2 = "[Request MultipleBackendInitiateMPU, InitiateMPU_returned ''u1'',
      Request (GetObject 1 \<lparr>range_start = 0, range_end = 4\<rparr>),
      Request (MultipleBackendPutMPUPart 1 ''u1'' 5), Part_succeeded 1]"
  let ?complete = "Request (MultipleBackendCompleteMPU ''u1''
          [\<lparr>res_PartNumber = [1], res_ETag = [''e''], res_NumberSubParts = None\<rparr>])"
  note order = mpu_run_order [of ex_task ex_entry ?rs]
  have tr: "st_trace (run ex_task ex_entry ?rs) = ?pre @ Request (MultipleBackendPutMPUPart 1 ''u1'' 5) # ?post"
    using ex_run_ok by simp
  have tr2: "st_trace (run ex_task ex_entry ?rs) = ?pre2 @ ?complete # [Done None]"
    using ex_run_ok by simp
  have nfs: "\<not> oqe_replicationIsNFS ex_entry"
    by (simp add: ex_entry_def)
  have ranges: "getRanges (log2_quotient ex_task) (oqe_contentLength ex_entry) (endpointType ex_task = ''gcp'')
        = Some [Some \<lparr>range_start = 0, range_end = 4\<rparr>]"
    by code_simp
  have n: "(1::nat) \<le> 1 \<and> (1::nat) \<le> length [Some \<lparr>range_start = 0, range_end = 4\<rparr>]"
    by simp
  from order tr have a: "InitiateMPU_returned ''u1'' \<in> set ?pre"
    by blast
  from order [THEN conjunct2, THEN conjunct1, rule_format, of ?pre2 "''u1''" _ "[Done None]" _ 1]
    tr2 ranges n
  have b: "Part_succeeded 1 \<in> set ?pre2"
    by blast
  from order nfs
  have c: "Request (MultipleBackendAbortMPU ''u1'') \<notin> set (st_trace (run ex_task ex_entry ?rs))"
    by blast
  let ?s = "run ex_task ex_entry [InitiateMPU_response (Inr ''u1'')]"
  have up: "st_status ?s = Uploading" "st_in_flight ?s = [1]" "st_uploadId ?s = Some ''u1''"
    using ex_uploading by simp_all
  have err: "passed_on (putMPUPart_callbacks (DestReq_response (Inl ex_err)) :: part_data handled)
        = Inl (ex_err\<lparr>err_origin := Some ''source''\<rparr>)"
      "\<not> (err_retryable (ex_err\<lparr>err_origin := Some ''source''\<rparr>) \<and> True)"
    using ex_err_passed by simp_all
  have "1 \<in> set (st_in_flight ?s)"
    using up(2) by simp
  with order [THEN conjunct2, THEN conjunct2, THEN conjunct2, rule_format,
      of ?s 1 "''u1''" "DestReq_response (Inl ex_err)" "ex_err\<lparr>err_origin := Some ''source''\<rparr>" True]
    nfs up err
  have d: "st_status (step ex_task ex_entry ?s (Part_response 1 (DestReq_response (Inl ex_err)) True)) = Finished"
    by blast
  show ?thesis
    using tr tr2 nfs ranges n a b c up err(1) d by blast
qed

text \<open>
  The claim as it was stated (on any part failure whose error is not retryable,
  abort-MPU is issued before the task terminates) fails for an entry whose source is not
  NFS: the only part fails with an error that is not retryable, the run ends with
  \<open>doneOnce(err)\<close>, and the trace holds no abort request.
\<close>

theorem mpu_run_part_failure_counterexample:
  "\<not> err_retryable ex_err
   \<and> st_trace (run ex_task ex_entry [InitiateMPU_response (Inr ''u1''),
        Part_response 1 (DestReq_response (Inl ex_err)) True]) =
      [Request MultipleBackendInitiateMPU, InitiateMPU_returned ''u1'',
       Request (GetObject 1 \<lparr>range_start = 0, range_end = 4\<rparr>),
       Request (MultipleBackendPutMPUPart 1 ''u1'' 5),
       Part_failed 1 (ex_err\<lparr>err_origin := Some ''source''\<rparr>),
       Done (Some (ex_err\<lparr>err_origin := Some ''source''\<rparr>))]
   \<and> st_status (run ex_task ex_entry [InitiateMPU_response (Inr ''u1''),
        Part_response 1 (DestReq_response (Inl ex_err)) True]) = Finished"
  by code_simp

subsection \<open>The state check of an NFS entry\<close>

lemma step_crashed: "st_status s = Crashed exc \<Longrightarrow> step t e s resp = s"
  by (simp add: step_def)

lemma foldl_step_crashed: "st_status s = Crashed exc \<Longrightarrow> foldl (step t e) s responses = s"
  by (induction responses) (simp_all add: step_crashed)

lemma checkObjectState_TypeError:
  "checkObjectState encode sourceEntry md = Inl (TypeError ''sourceEntry.getBucket is not a function'')"
  by (simp add: checkObjectState_def fetchSourceMD_def argument_def)

lemma fetchSourceMD_entry:
  "fetchSourceMD [JObjectQueueEntry sourceEntry, JLogger, JFunction] (MD_blob md) = Inr (Inr md)"
  by (simp add: fetchSourceMD_def argument_def)

text \<open>
  Claim C4. For an NFS entry the state of the object is to be checked again after each
  part, and a changed MD5 is to abort the upload and end the task with
  \<open>InvalidObjectState\<close>. The code does not get that far: whatever the metadata
  service answers, \<open>_checkObjectState\<close> throws a \<open>TypeError\<close>, because it calls
  \<open>_fetchSourceMD\<close> with a string where the entry is expected. A run for an NFS entry
  therefore stops at the first check, before the upload is initiated, with an empty
  trace: no part is sent, no abort is sent and the callback never gets
  \<open>InvalidObjectState\<close>. The call of \<open>_processReplicationEntry\<close>, which passes the
  entry itself, works (lemma \<open>fetchSourceMD_entry\<close>).
\<close>

theorem nfs_state_check_throws:
  "checkObjectState encode sourceEntry md = Inl (TypeError ''sourceEntry.getBucket is not a function'')
   \<and> st_status (run t (sourceEntry\<lparr>oqe_replicationIsNFS := True\<rparr>) responses)
        = Crashed (TypeError ''sourceEntry.getBucket is not a function'')
   \<and> st_trace (run t (sourceEntry\<lparr>oqe_replicationIsNFS := True\<rparr>) responses) = []"
proof -
  let ?e = "sourceEntry\<lparr>oqe_replicationIsNFS := True\<rparr>"
  let ?s = "getAndPutMultipartUploadOnce t ?e"
  have s: "st_status ?s = Crashed (TypeError ''sourceEntry.getBucket is not a function'')"
      "st_trace ?s = []"
    by (simp_all add: getAndPutMultipartUploadOnce_def checkObjectState_TypeError)
  have "run t ?e responses = ?s"
    unfolding run_def by (rule foldl_step_crashed [OF s(1)])
  with s show ?thesis by (simp add: checkObjectState_TypeError)
qed

subsection \<open>Origin of errors\<close>

text \<open>
  Claim C7, as amended. Every error that comes back from
  \<open>multipleBackendPutMPUPart\<close>, \<open>multipleBackendCompleteMPU\<close> or
  \<open>multipleBackendPutObject\<close> is passed on with \<open>origin = 'source'\<close> (these requests
  are sent with the client of the source, \<open>backbeatSource\<close>), so the hook \<open>onRetryFunc\<close>
  leaves the destination hosts as they are on such an error. An error of the source
  request \<open>getObject\<close> is passed on with \<open>origin = 'source'\<close>, and so is an error of
  its stream unless its status code is 404.
\<close>

theorem destination_errors_tagged_source:
  "passed_on (putMPUPart_callbacks (DestReq_response (Inl err)) :: 'd handled) = Inl (err\<lparr>err_origin := Some ''source''\<rparr>)
   \<and> passed_on (completeMPU_callback (Inl err :: js_error + 'd)) = Inl (err\<lparr>err_origin := Some ''source''\<rparr>)
   \<and> passed_on (sendMultipleBackendPutObject_callback (Inl err) :: 'd handled) = Inl (err\<lparr>err_origin := Some ''source''\<rparr>)
   \<and> passed_on (getAndPutPartOnce_callbacks (DestReq_response (Inl err)) :: 'd handled) = Inl (err\<lparr>err_origin := Some ''source''\<rparr>)
   \<and> getAndPutPart_onRetryFunc nhosts (err\<lparr>err_origin := Some ''source''\<rparr>) hosts = hosts
   \<and> passed_on (putMPUPart_callbacks (SourceReq_error err) :: 'd handled) = Inl (err\<lparr>err_origin := Some ''source''\<rparr>)
   \<and> passed_on (getAndPutPartOnce_callbacks (SourceReq_error err) :: 'd handled) = Inl (err\<lparr>err_origin := Some ''source''\<rparr>)
   \<and> (err_statusCode err \<noteq> Some 404 \<longrightarrow>
        passed_on (putMPUPart_callbacks (IncomingMsg_error err) :: 'd handled) = Inl (err\<lparr>err_origin := Some ''source''\<rparr>)
        \<and> passed_on (getAndPutPartOnce_callbacks (IncomingMsg_error err) :: 'd handled) = Inl (err\<lparr>err_origin := Some ''source''\<rparr>))"
  by (simp add: putMPUPart_callbacks_def completeMPU_callback_def sendMultipleBackendPutObject_callback_def
        getAndPutPartOnce_callbacks_def getAndPutPart_onRetryFunc_def)

text \<open>The theorem at an error with the status code 503.\<close>

theorem destination_errors_tagged_source_witness:
  "err_statusCode ex_err \<noteq> Some 404
   \<and> passed_on (putMPUPart_callbacks (IncomingMsg_error ex_err) :: part_data handled)
        = Inl (ex_err\<lparr>err_origin := Some ''source''\<rparr>)
   \<and> passed_on (getAndPutPartOnce_callbacks (IncomingMsg_error ex_err) :: part_data handled)
        = Inl (ex_err\<lparr>err_origin := Some ''source''\<rparr>)"
proof -
  have "err_statusCode ex_err \<noteq> Some 404" by (simp add: ex_err_def)
  with destination_errors_tagged_source [of ex_err, where ?'d = part_data]
  show ?thesis by blast
qed

text \<open>
  The claim as it was stated (an error of a destination operation carries
  \<open>origin = 'target'\<close>, so that a retry advances to the next destination host) fails
  at a 503 answer to \<open>multipleBackendPutMPUPart\<close>: the error is passed on with the
  origin \<open>source\<close>, and the hook changes nothing.
\<close>

theorem destination_error_origin_counterexample:
  "passed_on (putMPUPart_callbacks (DestReq_response (Inl ex_err)) :: part_data handled)
      = Inl (ex_err\<lparr>err_origin := Some ''source''\<rparr>)
   \<and> err_origin (ex_err\<lparr>err_origin := Some ''source''\<rparr>) \<noteq> Some ''target''
   \<and> getAndPutPart_onRetryFunc 2 (ex_err\<lparr>err_origin := Some ''source''\<rparr>)
        \<lparr> host_index = 0, clients_bound = 1 \<rparr> = \<lparr> host_index = 0, clients_bound = 1 \<rparr>"
  by (simp add: putMPUPart_callbacks_def getAndPutPart_onRetryFunc_def)

subsection \<open>Replication of the data of an object\<close>

text \<open>
  Claim C6. If any element of \<open>location[]\<close> lacks a \<open>dataStoreETag\<close>,
  \<open>_getAndPutData\<close> sends no gateway request and calls back with an
  \<open>InternalError\<close> that is not retryable (the outcome handler then publishes
  \<open>FAILED\<close>); conversely, when every part carries a \<open>dataStoreETag\<close>, this branch is
  not taken: its message is not logged and the result is that of the transfer of the
  parts.
\<close>

theorem getAndPutData_requires_dataStoreETag:
  "((\<exists>part \<in> set (oqe_location e). part ''dataStoreETag'' = None) \<longrightarrow>
      dr_io (getAndPutData getReducedLocations mapLimit getAndPutPart e) = []
      \<and> dr_result (getAndPutData getReducedLocations mapLimit getAndPutPart e)
          = Inr (Some (customizeDescription (arsenal_error ''InternalError'') errMessage_noETag))
      \<and> has_flag (customizeDescription (arsenal_error ''InternalError'') errMessage_noETag) ''InternalError''
      \<and> \<not> err_retryable (customizeDescription (arsenal_error ''InternalError'') errMessage_noETag)
      \<and> published (handleReplicationOutcome
            (Some (customizeDescription (arsenal_error ''InternalError'') errMessage_noETag)))
          = [(''FAILED'', Some (Description errMessage_noETag))])
   \<and> ((\<forall>part \<in> set (oqe_location e). part ''dataStoreETag'' \<noteq> None) \<longrightarrow>
      LogError errMessage_noETag \<notin> set (dr_logged (getAndPutData getReducedLocations mapLimit getAndPutPart e))
      \<and> (dr_io (getAndPutData getReducedLocations mapLimit getAndPutPart e),
          dr_result (getAndPutData getReducedLocations mapLimit getAndPutPart e))
          = (if getReducedLocations e = [] then getAndPutPart None
             else mapLimit (getReducedLocations e) MPU_CONC_LIMIT (\<lambda>part. getAndPutPart (Some part))))"
  by (auto simp: getAndPutData_def list_ex_iff Let_def customizeDescription_def arsenal_error_def
        has_flag_def handleReplicationOutcome_def split: prod.splits)

text \<open>
  The theorem at an entry with one location without \<open>dataStoreETag\<close>, and at one with
  one location that has it; on a list of one location \<open>async.mapLimit\<close> runs the
  iteratee on that location.
\<close>

theorem getAndPutData_requires_dataStoreETag_witness:
  "oqe_location (ex_entry\<lparr>oqe_location := [Map.empty(''size'' \<mapsto> Num 5)]\<rparr>) = [Map.empty(''size'' \<mapsto> Num 5)]
   \<and> (Map.empty(''size'' \<mapsto> Num 5)) ''dataStoreETag'' = None
   \<and> dr_io (getAndPutData oqe_location (\<lambda>locations limit iteratee. iteratee (hd locations))
        (\<lambda>p. ([''putObject''], Inr None))
        (ex_entry\<lparr>oqe_location := [Map.empty(''size'' \<mapsto> Num 5)]\<rparr>)) = []
   \<and> oqe_location (ex_entry\<lparr>oqe_location := [Map.empty(''dataStoreETag'' \<mapsto> Str ''1:e'')]\<rparr>)
        = [Map.empty(''dataStoreETag'' \<mapsto> Str ''1:e'')]
   \<and> (Map.empty(''dataStoreETag'' \<mapsto> Str ''1:e'')) ''dataStoreETag'' = Some (Str ''1:e'')
   \<and> dr_io (getAndPutData oqe_location (\<lambda>locations limit iteratee. iteratee (hd locations))
        (\<lambda>p. ([''putObject''], Inr None))
        (ex_entry\<lparr>oqe_location := [Map.empty(''dataStoreETag'' \<mapsto> Str ''1:e'')]\<rparr>)) = [''putObject'']"
proof -
  let ?part = "\<lambda>p::location option. ([''putObject''], Inr None :: js_exception + js_error option)"
  let ?map = "\<lambda>(locations::location list) (limit::nat)
      (iteratee::location \<Rightarrow> string list \<times> (js_exception + js_error option)). iteratee (hd locations)"
  let ?bad = "ex_entry\<lparr>oqe_location := [Map.empty(''size'' \<mapsto> Num 5)]\<rparr>"
  let ?good = "ex_entry\<lparr>oqe_location := [Map.empty(''dataStoreETag'' \<mapsto> Str ''1:e'')]\<rparr>"
  have bad: "\<exists>part \<in> set (oqe_location ?bad). part ''dataStoreETag'' = None"
    by simp
  have good: "\<forall>part \<in> set (oqe_location ?good). part ''dataStoreETag'' \<noteq> None"
    by simp
  from getAndPutData_requires_dataStoreETag [of ?bad oqe_location ?map ?part] bad
  have a: "dr_io (getAndPutData oqe_location ?map ?part ?bad) = []"
    by blast
  from getAndPutData_requires_dataStoreETag [of ?good oqe_location ?map ?part] good
  have "(dr_io (getAndPutData oqe_location ?map ?part ?good),
         dr_result (getAndPutData oqe_location ?map ?part ?good))
      = (if oqe_location ?good = [] then ?part None
         else ?map (oqe_location ?good) MPU_CONC_LIMIT (\<lambda>part. ?part (Some part)))"
    by blast
  then have b: "dr_io (getAndPutData oqe_location ?map ?part ?good) = [''putObject'']"
    by simp
  from a b show ?thesis by simp
qed

subsection \<open>Metadata-mirror processor\<close>

lemma manipulateLocation_length:
  "length (oqe_location (manipulateLocation encode entry)) = length (oqe_location entry)"
  by (simp add: manipulateLocation_def Let_def)

lemma manipulateLocation_nth:
  assumes "i < length (oqe_location entry)"
  shows "(oqe_location (manipulateLocation encode entry) ! i) ''dataStoreName'' = Some (Str ''philz-ring'')"
    and "(oqe_location (manipulateLocation encode entry) ! i) ''dataStoreType'' = Some (Str ''aws_s3'')"
    and "(oqe_location (manipulateLocation encode entry) ! i) ''key'' = Some (Str (oqe_objectKey entry))"
    and "(oqe_location (manipulateLocation encode entry) ! i) ''dataStoreVersionId'' =
          (if truthy (oqe_versionId entry) then Some (Str (getEncodedVersionId encode entry))
           else (oqe_location entry ! i) ''dataStoreVersionId'')"
    and "f \<notin> rewritten_fields \<Longrightarrow>
          (oqe_location (manipulateLocation encode entry) ! i) f = (oqe_location entry ! i) f"
  using assms by (simp_all add: manipulateLocation_def Let_def map_add_def rewritten_fields_def)

text \<open>
  Claim C8. For every \<open>ObjectQueueEntry\<close> the processor rewrites each element of
  \<open>location[]\<close> to the canonical \<open>dataStoreName\<close> and \<open>dataStoreType\<close> of the mirror,
  sets \<open>dataStoreVersionId\<close> on each location exactly when the entry has a version id
  (otherwise the property is left as it was), and writes the value under the versioned
  key of the object with the version parameters \<open>undefined\<close>; for every
  \<open>DeleteOpQueueEntry\<close> it deletes the versioned key with the version parameters
  \<open>undefined\<close>.
\<close>

theorem processKafkaEntry_mirrors_object_and_delete:
  "(\<exists>objVal.
      db_calls (processKafkaEntry encode mongoClient (ObjectQueueEntry entry)) =
        [PutObject (oqe_bucket entry) (oqe_objectVersionedKey entry) objVal None]
      \<and> length (oqe_location objVal) = length (oqe_location entry)
      \<and> (\<forall>i < length (oqe_location entry).
            (oqe_location objVal ! i) ''dataStoreName'' = Some (Str ''philz-ring'')
          \<and> (oqe_location objVal ! i) ''dataStoreType'' = Some (Str ''aws_s3'')
          \<and> (truthy (oqe_versionId entry) \<longrightarrow>
                (oqe_location objVal ! i) ''dataStoreVersionId'' = Some (Str (getEncodedVersionId encode entry)))
          \<and> (\<not> truthy (oqe_versionId entry) \<longrightarrow>
                (oqe_location objVal ! i) ''dataStoreVersionId'' = (oqe_location entry ! i) ''dataStoreVersionId'')
          \<and> (\<forall>f. f \<notin> rewritten_fields \<longrightarrow> (oqe_location objVal ! i) f = (oqe_location entry ! i) f)))
   \<and> db_calls (processKafkaEntry encode mongoClient (DeleteOpQueueEntry bucket key)) =
        [DeleteObject bucket key None]"
proof (intro conjI)
  let ?v = "manipulateOwner (manipulateLocation encode entry)"
  have loc: "oqe_location ?v = oqe_location (manipulateLocation encode entry)"
    by (simp add: manipulateOwner_def)
  have "db_calls (processKafkaEntry encode mongoClient (ObjectQueueEntry entry)) =
        [PutObject (oqe_bucket entry) (oqe_objectVersionedKey entry) ?v None]"
    by (simp add: processKafkaEntry_def Let_def split: option.splits)
  then show "\<exists>objVal.
      db_calls (processKafkaEntry encode mongoClient (ObjectQueueEntry entry)) =
        [PutObject (oqe_bucket entry) (oqe_objectVersionedKey entry) objVal None]
      \<and> length (oqe_location objVal) = length (oqe_location entry)
      \<and> (\<forall>i < length (oqe_location entry).
            (oqe_location objVal ! i) ''dataStoreName'' = Some (Str ''philz-ring'')
          \<and> (oqe_location objVal ! i) ''dataStoreType'' = Some (Str ''aws_s3'')
          \<and> (truthy (oqe_versionId entry) \<longrightarrow>
                (oqe_location objVal ! i) ''dataStoreVersionId'' = Some (Str (getEncodedVersionId encode entry)))
          \<and> (\<not> truthy (oqe_versionId entry) \<longrightarrow>
                (oqe_location objVal ! i) ''dataStoreVersionId'' = (oqe_location entry ! i) ''dataStoreVersionId'')
          \<and> (\<forall>f. f \<notin> rewritten_fields \<longrightarrow> (oqe_location objVal ! i) f = (oqe_location entry ! i) f))"
    by (intro exI [of _ ?v]) (simp add: loc manipulateLocation_length manipulateLocation_nth)
next
  show "db_calls (processKafkaEntry encode mongoClient (DeleteOpQueueEntry bucket key)) =
        [DeleteObject bucket key None]"
    by (simp add: processKafkaEntry_def Let_def split: option.splits)
qed

text \<open>The theorem at an entry with one location and the version id \<open>v1\<close>.\<close>

theorem processKafkaEntry_mirrors_object_and_delete_witness:
  "(0::nat) < length [Map.empty(''size'' \<mapsto> Num 5)] \<and> truthy (Some ''v1'')
   \<and> (\<exists>objVal.
      db_calls (processKafkaEntry (\<lambda>v. case v of None \<Rightarrow> [] | Some s \<Rightarrow> s) (\<lambda>c. None)
        (ObjectQueueEntry \<lparr> oqe_bucket = ''b'', oqe_objectKey = ''k'', oqe_objectVersionedKey = ''k.v1'',
           oqe_versionId = Some ''v1'', oqe_location = [Map.empty(''size'' \<mapsto> Num 5)], oqe_ownerDisplayName = ''o'',
           oqe_ownerId = ''id'', oqe_contentLength = 5, oqe_contentMd5 = ''m'',
           oqe_isDeleteMarker = False, oqe_replicationIsNFS = False \<rparr>)) =
        [PutObject ''b'' ''k.v1'' objVal None]
      \<and> (oqe_location objVal ! 0) ''dataStoreName'' = Some (Str ''philz-ring'')
      \<and> (oqe_location objVal ! 0) ''dataStoreType'' = Some (Str ''aws_s3'')
      \<and> (oqe_location objVal ! 0) ''dataStoreVersionId'' = Some (Str ''v1'')
      \<and> (oqe_location objVal ! 0) ''size'' = Some (Num 5))"
  using processKafkaEntry_mirrors_object_and_delete [of "\<lambda>v. case v of None \<Rightarrow> [] | Some s \<Rightarrow> s" "\<lambda>c. None"
        "\<lparr> oqe_bucket = ''b'', oqe_objectKey = ''k'', oqe_objectVersionedKey = ''k.v1'',
           oqe_versionId = Some ''v1'', oqe_location = [Map.empty(''size'' \<mapsto> Num 5)], oqe_ownerDisplayName = ''o'',
           oqe_ownerId = ''id'', oqe_contentLength = 5, oqe_contentMd5 = ''m'',
           oqe_isDeleteMarker = False, oqe_replicationIsNFS = False \<rparr>" "''b''" "''k''"]
  by (simp add: truthy_def getEncodedVersionId_def rewritten_fields_def) force

text \<open>
  Claim C10. For every \<open>BucketQueueEntry\<close> and every \<open>BucketMdQueueEntry\<close>,
  \<open>processKafkaEntry\<close> makes no call to the document database (no put and no delete,
  so the database is left as it was) and calls \<open>done\<close> with no error.
\<close>

theorem processKafkaEntry_bucket_entries_skipped:
  "db_calls (processKafkaEntry encode mongoClient (BucketQueueEntry bucket val)) = []
   \<and> done_error (processKafkaEntry encode mongoClient (BucketQueueEntry bucket val)) = None
   \<and> db_calls (processKafkaEntry encode mongoClient (BucketMdQueueEntry bucket val)) = []
   \<and> done_error (processKafkaEntry encode mongoClient (BucketMdQueueEntry bucket val)) = None"
  by (simp add: processKafkaEntry_def)

text \<open>
  Claim C9. For every input the three constructors of \<open>RaftLogEntry\<close> produce a record
  of type \<open>put\<close>: \<open>createPutEntry\<close> has the prefixed bucket name as bucket, the object
  key as key and the serialized metadata as value; \<open>createPutBucketEntry\<close> has
  \<open>usersBucket\<close> as bucket, the prefixed bucket as key and \<open>null\<close> as value;
  \<open>createPutBucketMdEntry\<close> has the prefixed bucket name as both bucket and key and
  \<open>bucket.serialize()\<close> as value.
\<close>

theorem RaftLogEntry_records:
  "createPutEntry stringify objectMd prefix =
     \<lparr> entry_type = ''put'', entry_bucket = prefix @ ''-'' @ om_bucketName objectMd,
       entry_key = om_objectKey objectMd, entry_value = Some (stringify (om_res objectMd)) \<rparr>
   \<and> createPutBucketEntry usersBucket bucket prefix =
     \<lparr> entry_type = ''put'', entry_bucket = usersBucket,
       entry_key = prefix @ ''-'' @ bucket, entry_value = None \<rparr>
   \<and> createPutBucketMdEntry serialize b prefix =
     \<lparr> entry_type = ''put'', entry_bucket = prefix @ ''-'' @ bucket_name b,
       entry_key = prefix @ ''-'' @ bucket_name b, entry_value = Some (serialize b) \<rparr>"
  by (simp add: createPutEntry_def createPutBucketEntry_def createPutBucketMdEntry_def)

end
